theory Spec2Isabelle
  imports
    Complex_Main
    "HOL-Library.Product_Lexorder"
    "HOL-Library.List_Lexorder"
    "HOL-Library.Char_ord"
    "HOL-Library.Multiset"
begin

section \<open>Value objects\<close>

text \<open>
  Modelled from the spec: the classes \<open>Derive\<close>, \<open>Vulnerability\<close> and \<open>WhitelistRule\<close>, which
  \<^verbatim>\<open>output.py\<close> and \<^verbatim>\<open>nix.py\<close> import from modules that are not among the sources. The
  records carry the attributes those two modules read. A score is a Python float, read
  here as the real number it denotes (negation and comparison of finite floats are
  exact); 0 stands for "unscored".
\<close>

record derive =
  name :: string
  pname :: string
  version :: "string option"
  store_path :: "string option"

record vulnerability =
  cve_id :: string
  cvssv3 :: real
  description :: "string option"

text \<open>A \<open>datetime.date\<close>: year, month, day, compared lexicographically.\<close>

type_synonym date = "nat \<times> nat \<times> nat"

record whitelist_rule =
  cve :: "string list option"
  until :: "date option"
  issue_url :: "string list"
  comment :: "string list"

text \<open>
  Modelled from the spec: \<open>Vulnerability(cve_id, cvssv3=None, description=None)\<close>, an absent
  score being stored as 0.
\<close>

definition V :: "string \<Rightarrow> real option \<Rightarrow> string option \<Rightarrow> vulnerability" where
  "V i s d = \<lparr>cve_id = i, cvssv3 = (case s of None \<Rightarrow> 0 | Some x \<Rightarrow> x), description = d\<rparr>"

section \<open>Python sets of vulnerabilities\<close>

text \<open>
  Modelled from the spec: the equality of \<open>Vulnerability\<close>, by identifier alone
  (\<^verbatim>\<open>__eq__\<close> and \<^verbatim>\<open>__hash__\<close> are in \<^verbatim>\<open>vulnerability.py\<close>, not among the sources). A
  Python set is represented by the list of its members in iteration order; membership,
  difference and union go through that equality, so a set never holds two members with
  one identifier. Python leaves the iteration order open; the theorems below speak about
  \<open>set xs\<close> or about sorted output, which do not depend on it.
\<close>

type_synonym vuln_set = "vulnerability list"

definition ids :: "vuln_set \<Rightarrow> string set" where
  "ids A = cve_id ` set A"

text \<open>\<^verbatim>\<open>v in A\<close>\<close>

definition py_in :: "vulnerability \<Rightarrow> vuln_set \<Rightarrow> bool" where
  "py_in v A = (cve_id v \<in> ids A)"

text \<open>\<^verbatim>\<open>A.add(v)\<close>: a member equal to \<open>v\<close> stays as it is.\<close>

definition set_add :: "vuln_set \<Rightarrow> vulnerability \<Rightarrow> vuln_set" where
  "set_add A v = (if py_in v A then A else A @ [v])"

text \<open>\<^verbatim>\<open>set(xs)\<close>, \<^verbatim>\<open>A |= B\<close> (also \<^verbatim>\<open>A | B\<close>) and \<^verbatim>\<open>A -= B\<close>\<close>

definition py_set :: "vulnerability list \<Rightarrow> vuln_set" where
  "py_set xs = foldl set_add [] xs"

definition set_union :: "vuln_set \<Rightarrow> vuln_set \<Rightarrow> vuln_set" where
  "set_union A B = foldl set_add A B"

definition set_diff :: "vuln_set \<Rightarrow> vuln_set \<Rightarrow> vuln_set" where
  "set_diff A B = filter (\<lambda>a. \<not> py_in a B) A"

section \<open>Filtered: a derivation with whitelist filtering applied\<close>

record filtered =
  derivation :: derive
  rules :: "whitelist_rule list"
  report :: vuln_set
  masked :: vuln_set
  until :: "date option"

text \<open>
  \<^verbatim>\<open>Filtered.__init__\<close>. The class attribute \<^verbatim>\<open>until = None\<close> is the initial value of the
  field. (The source keeps the caller's set object as \<open>report\<close>; one instance is modelled
  here, so the sharing is not visible.)
\<close>

definition Filtered :: "derive \<Rightarrow> vuln_set \<Rightarrow> filtered" where
  "Filtered d vulnerabilities =
     \<lparr>derivation = d, rules = [], report = vulnerabilities, masked = [], until = None\<rparr>"

text \<open>
  The body of the loop \<^verbatim>\<open>for _r in wl_rule.cve\<close> of \<^verbatim>\<open>Filtered.add\<close>:
  \<^verbatim>\<open>
  mask = set(vuln for vuln in self.report if vuln.cve_id in wl_rule.cve)
  self.report -= mask
  self.masked |= mask
  \<close>
\<close>

definition mask_step :: "string list \<Rightarrow> filtered \<Rightarrow> filtered" where
  "mask_step cs self =
     (let mask = py_set (filter (\<lambda>vuln. cve_id vuln \<in> set cs) (report self))
      in self\<lparr>report := set_diff (report self) mask,
               masked := set_union (masked self) mask\<rparr>)"

text \<open>
  The \<^verbatim>\<open>else\<close> branch of \<^verbatim>\<open>Filtered.add\<close>:
  \<^verbatim>\<open>
  self.masked |= self.report
  self.report = set()
  \<close>
\<close>

definition mask_all :: "filtered \<Rightarrow> filtered" where
  "mask_all self = self\<lparr>masked := set_union (masked self) (report self), report := []\<rparr>"

text \<open>
  The update of \<^verbatim>\<open>self.until\<close> in \<^verbatim>\<open>Filtered.add\<close>. A date is always true in a Python
  condition, so \<^verbatim>\<open>if wl_rule.until\<close> and \<^verbatim>\<open>not self.until\<close> test for \<open>None\<close>.
\<close>

definition update_until :: "date option \<Rightarrow> filtered \<Rightarrow> filtered" where
  "update_until rule_until self =
     (case rule_until of
        None \<Rightarrow> self
      | Some u \<Rightarrow>
          (case filtered.until self of
             None \<Rightarrow> self\<lparr>filtered.until := Some u\<rparr>
           | Some t \<Rightarrow> if t > u then self\<lparr>filtered.until := Some u\<rparr> else self))"

text \<open>
  \<^verbatim>\<open>Filtered.add\<close>. The condition \<^verbatim>\<open>if wl_rule.cve\<close> holds for a present, non-empty
  collection only; the loop runs once per member of \<^verbatim>\<open>wl_rule.cve\<close>, with a body that
  does not read the loop variable.
\<close>

definition add :: "filtered \<Rightarrow> whitelist_rule \<Rightarrow> filtered" where
  "add self wl_rule =
     (let s1 = self\<lparr>rules := rules self @ [wl_rule]\<rparr>;
          s2 = update_until (whitelist_rule.until wl_rule) s1
      in case cve wl_rule of
           None \<Rightarrow> mask_all s2
         | Some cs \<Rightarrow>
             if cs \<noteq> [] then fold (\<lambda>r s. mask_step cs s) cs s2 else mask_all s2)"

text \<open>A sequence of \<^verbatim>\<open>add\<close> calls on one instance.\<close>

definition add_all :: "filtered \<Rightarrow> whitelist_rule list \<Rightarrow> filtered" where
  "add_all self rs = foldl add self rs"

text \<open>
  The invariant of a \<open>Filtered\<close> instance: no identifier occurs twice in \<open>report\<close> and
  \<open>masked\<close> taken together.
\<close>

definition well_formed :: "filtered \<Rightarrow> bool" where
  "well_formed f = distinct (map cve_id (report f @ masked f))"

text \<open>
  The expiry dates carried by a sequence of rules, and their minimum as the spec words it
  ("the minimum of all expiry dates of rules applied so far, absent if none carried one").
\<close>

definition expiry_dates :: "whitelist_rule list \<Rightarrow> date list" where
  "expiry_dates rs = List.map_filter whitelist_rule.until rs"

definition spec_earliest_expiry :: "whitelist_rule list \<Rightarrow> date option" where
  "spec_earliest_expiry rs =
     (if expiry_dates rs = [] then None else Some (Min (set (expiry_dates rs))))"

text \<open>
  The order in which the earliest expiry does not increase: an absent expiry lies above
  every date.
\<close>

definition expiry_le :: "date option \<Rightarrow> date option \<Rightarrow> bool" where
  "expiry_le a b =
     (case b of None \<Rightarrow> True
      | Some t \<Rightarrow> (case a of None \<Rightarrow> False | Some t' \<Rightarrow> t' \<le> t))"

text \<open>The earliest expiry after further rules with the dates \<open>ds\<close>, from the current one.\<close>

definition combine :: "date option \<Rightarrow> date list \<Rightarrow> date option" where
  "combine t ds = (case t of None \<Rightarrow> (if ds = [] then None else Some (Min (set ds)))
                   | Some t' \<Rightarrow> Some (Min (insert t' (set ds))))"

section \<open>Python strings\<close>

text \<open>
  The string methods the two modules call, on byte strings: the ASCII whitespace of
  \<^verbatim>\<open>str.strip\<close> and \<^verbatim>\<open>str.split\<close>, the ASCII line boundaries of \<^verbatim>\<open>str.splitlines\<close>.
\<close>

definition is_space :: "char \<Rightarrow> bool" where
  "is_space c = ((of_char c :: nat) \<in> {9, 10, 11, 12, 13, 28, 29, 30, 31, 32})"

definition lstrip :: "string \<Rightarrow> string" where
  "lstrip s = dropWhile is_space s"

definition rstrip :: "string \<Rightarrow> string" where
  "rstrip s = rev (dropWhile is_space (rev s))"

definition strip :: "string \<Rightarrow> string" where
  "strip s = rstrip (lstrip s)"

text \<open>\<^verbatim>\<open>f"{s:n}"\<close> and \<^verbatim>\<open>f"{s:<n}"\<close>: pad with spaces on the right up to width \<open>n\<close>.\<close>

definition ljust :: "nat \<Rightarrow> string \<Rightarrow> string" where
  "ljust n s = s @ replicate (n - length s) CHR '' ''"

definition endswith :: "string \<Rightarrow> string \<Rightarrow> bool" where
  "endswith s suffix =
     (length suffix \<le> length s \<and> drop (length s - length suffix) s = suffix)"

text \<open>\<^verbatim>\<open>x in s\<close> for strings: \<open>x\<close> occurs in \<open>s\<close> as a substring.\<close>

fun contains :: "string \<Rightarrow> string \<Rightarrow> bool" where
  "contains [] x = (x = [])"
| "contains (c # cs) x = (take (length x) (c # cs) = x \<or> contains cs x)"

definition is_linebreak :: "char \<Rightarrow> bool" where
  "is_linebreak c = ((of_char c :: nat) \<in> {10, 11, 12, 13, 28, 29, 30})"

fun splitlines_from :: "string \<Rightarrow> string \<Rightarrow> string list" where
  "splitlines_from cur [] = (if cur = [] then [] else [rev cur])"
| "splitlines_from cur [c] = (if is_linebreak c then [rev cur] else [rev (c # cur)])"
| "splitlines_from cur (c # d # cs) =
     (if c = CHR 0x0D \<and> d = CHR 0x0A then rev cur # splitlines_from [] cs
      else if is_linebreak c then rev cur # splitlines_from [] (d # cs)
      else splitlines_from (c # cur) (d # cs))"

definition splitlines :: "string \<Rightarrow> string list" where
  "splitlines s = splitlines_from [] s"

fun split_from :: "string \<Rightarrow> string \<Rightarrow> string list" where
  "split_from cur [] = (if cur = [] then [] else [rev cur])"
| "split_from cur (c # cs) =
     (if is_space c then (if cur = [] then split_from [] cs else rev cur # split_from [] cs)
      else split_from (c # cur) cs)"

text \<open>\<^verbatim>\<open>s.split()\<close>\<close>

definition split :: "string \<Rightarrow> string list" where
  "split s = split_from [] s"

text \<open>\<^verbatim>\<open>str(n)\<close> for a natural number, as \<^verbatim>\<open>f"{len(wl)}"\<close> prints it.\<close>

fun str_nat :: "nat \<Rightarrow> string" where
  "str_nat n =
     (if n < 10 then [''0123456789'' ! n]
      else str_nat (n div 10) @ [''0123456789'' ! (n mod 10)])"

declare str_nat.simps [simp del]

section \<open>Rendering\<close>

text \<open>
  \<^verbatim>\<open>vuln_sort_key\<close> returns \<^verbatim>\<open>(-v.cvssv3, v)\<close>; Python compares the pairs
  lexicographically. Modelled from the spec: the order of \<open>Vulnerability\<close> objects, by
  identifier, for which the key carries the identifier as its second component.
\<close>

definition vuln_sort_key :: "vulnerability \<Rightarrow> real \<times> string" where
  "vuln_sort_key v = (- cvssv3 v, cve_id v)"

text \<open>\<^verbatim>\<open>sorted(xs, key=k)\<close>: a stable sort by the keys.\<close>

definition sorted_by :: "('a \<Rightarrow> 'k::linorder) \<Rightarrow> 'a list \<Rightarrow> 'a list" where
  "sorted_by k xs = sort_key k xs"

text \<open>\<^verbatim>\<open>click.style(text, fg="cyan")\<close>: the text between two escape sequences.\<close>

definition style_cyan :: "string \<Rightarrow> string" where
  "style_cyan s = CHR 0x1B # ''[36m'' @ s @ CHR 0x1B # ''[0m''"

text \<open>
  \<^verbatim>\<open>fmt_vuln\<close>. The parameter \<open>float_str\<close> is Python's conversion of a float to text.
\<close>

definition fmt_vuln :: "(real \<Rightarrow> string) \<Rightarrow> vulnerability \<Rightarrow> bool \<Rightarrow> string" where
  "fmt_vuln float_str v show_description =
     (let out = ''https://nvd.nist.gov/vuln/detail/'' @ ljust 17 (cve_id v) @ '' ''
                @ ljust 8 (if cvssv3 v \<noteq> 0 then float_str (cvssv3 v) else []) @ '' '';
          out' = (if show_description
                  then out @ style_cyan (case description v of None \<Rightarrow> [] | Some d \<Rightarrow> d)
                  else out)
      in rstrip out')"

text \<open>
  \<^verbatim>\<open>Filtered.print\<close>. The result is the list of the messages handed to \<^verbatim>\<open>click.secho\<close>
  and \<^verbatim>\<open>click.echo\<close>, in order; each is written followed by a newline. The colours
  given as keyword arguments are not part of the messages. The issue links are a Python
  set, written in its iteration order; the model lists each link once.
\<close>

definition print :: "(real \<Rightarrow> string) \<Rightarrow> filtered \<Rightarrow> bool \<Rightarrow> bool \<Rightarrow> string list" where
  "print float_str self show_masked show_description =
     (if report self = [] \<and> \<not> show_masked then []
      else
        let d = derivation self;
            issues = remdups (concat (map issue_url (rules self)))
        in [CHR 0x0A # replicate 72 CHR ''-'', name d @ [CHR 0x0A]]
           @ (case store_path d of None \<Rightarrow> [] | Some p \<Rightarrow> if p \<noteq> [] then [p] else [])
           @ [rstrip (ljust 50 ''CVE'' @ '' '' @ ljust 8 ''CVSSv3'' @ '' ''
                      @ (if show_description then ''Description'' else []))]
           @ map (\<lambda>v. fmt_vuln float_str v show_description)
               (sorted_by vuln_sort_key (report self))
           @ (if show_masked
              then map (\<lambda>v. fmt_vuln float_str v show_description @ ''  [whitelisted]'')
                     (sorted_by vuln_sort_key (masked self))
              else [])
           @ (if issues \<noteq> [] then (CHR 0x0A # ''Issue(s):'') # issues else [])
           @ concat (map (\<lambda>rule. if comment rule \<noteq> []
                                  then (CHR 0x0A # ''Comment:'') # map (\<lambda>c. ''* '' @ c) (comment rule)
                                  else [])
                      (rules self)))"

text \<open>
  The messages \<^verbatim>\<open>Filtered.print\<close> writes before the advisories (lines 66 to 74) and
  after them (lines 81 to 90), to say what stands between them.
\<close>

definition print_head :: "derive \<Rightarrow> bool \<Rightarrow> string list" where
  "print_head d show_description =
     [CHR 0x0A # replicate 72 CHR ''-'', name d @ [CHR 0x0A]]
     @ (case store_path d of None \<Rightarrow> [] | Some p \<Rightarrow> if p \<noteq> [] then [p] else [])
     @ [rstrip (ljust 50 ''CVE'' @ '' '' @ ljust 8 ''CVSSv3'' @ '' ''
                @ (if show_description then ''Description'' else []))]"

definition print_tail :: "whitelist_rule list \<Rightarrow> string list" where
  "print_tail rs =
     (if remdups (concat (map issue_url rs)) \<noteq> []
      then (CHR 0x0A # ''Issue(s):'') # remdups (concat (map issue_url rs)) else [])
     @ concat (map (\<lambda>rule. if comment rule \<noteq> []
                            then (CHR 0x0A # ''Comment:'') # map (\<lambda>c. ''* '' @ c) (comment rule)
                            else [])
                rs)"

text \<open>
  \<^verbatim>\<open>output_text\<close>. Modelled from the spec: the order of \<open>Derive\<close> objects, by name, which
  \<^verbatim>\<open>sorted(..., key=attrgetter("derivation"))\<close> uses.
\<close>

definition output_text ::
  "(real \<Rightarrow> string) \<Rightarrow> filtered list \<Rightarrow> bool \<Rightarrow> bool \<Rightarrow> string list" where
  "output_text float_str vulns show_whitelisted show_description =
     (let rep = filter (\<lambda>v. report v \<noteq> []) vulns;
          wl = filter (\<lambda>v. report v = []) vulns
      in if rep = [] \<and> \<not> show_whitelisted then
           (if wl \<noteq> []
            then [''Nothing to show, but '' @ str_nat (length wl)
                  @ '' left out due to whitelisting'']
            else [''Found no advisories. Excellent!''])
         else
           [str_nat (length rep) @ '' derivations with active advisories'']
           @ (if wl \<noteq> [] \<and> \<not> show_whitelisted
              then [str_nat (length wl) @ '' derivations left out due to whitelisting'']
              else [])
           @ concat (map (\<lambda>i. print float_str i show_whitelisted show_description)
                      (sorted_by (\<lambda>i. name (derivation i)) rep))
           @ (if show_whitelisted
              then concat (map (\<lambda>i. print float_str i show_whitelisted show_description)
                             (sorted_by (\<lambda>i. name (derivation i)) wl))
              else [])
           @ (if wl \<noteq> [] \<and> \<not> show_whitelisted
              then [CHR 0x0A
                    # ''use --show-whitelisted to see derivations with only whitelisted CVEs'']
              else []))"

text \<open>What \<^verbatim>\<open>click\<close> writes for a list of messages.\<close>

definition written :: "string list \<Rightarrow> string" where
  "written msgs = concat (map (\<lambda>m. m @ [CHR 0x0A]) msgs)"

text \<open>JSON values, as \<^verbatim>\<open>json.loads\<close> returns them and \<^verbatim>\<open>json.dumps\<close> takes them; \<open>JNull\<close> is
  Python's \<open>None\<close>, an object is the list of its items in order.\<close>

datatype json =
    JNull
  | JBool bool
  | JNum real
  | JStr string
  | JList "json list"
  | JDict "(string \<times> json) list"

definition json_opt :: "string option \<Rightarrow> json" where
  "json_opt x = (case x of None \<Rightarrow> JNull | Some s \<Rightarrow> JStr s)"

text \<open>The object \<^verbatim>\<open>output_json\<close> appends for one item.\<close>

definition json_entry :: "filtered \<Rightarrow> json" where
  "json_entry i =
     (let d = derivation i
      in JDict
        [(''name'', JStr (name d)),
         (''pname'', JStr (pname d)),
         (''version'', json_opt (version d)),
         (''derivation'', json_opt (store_path d)),
         (''affected_by'', JList (map JStr (sort (map cve_id (report i))))),
         (''whitelisted'', JList (map JStr (sort (map cve_id (masked i))))),
         (''cvssv3_basescore'',
            JDict (map (\<lambda>v. (cve_id v, JNum (cvssv3 v)))
                    (filter (\<lambda>v. cvssv3 v \<noteq> 0) (set_union (report i) (masked i))))),
         (''description'',
            JDict (List.map_filter
                    (\<lambda>v. case description v of
                           None \<Rightarrow> None
                         | Some t \<Rightarrow> if t \<noteq> [] then Some (cve_id v, JStr t) else None)
                    (set_union (report i) (masked i))))])"

text \<open>\<^verbatim>\<open>output_json\<close>: the value handed to \<^verbatim>\<open>json.dumps\<close>.\<close>

definition output_json :: "filtered list \<Rightarrow> bool \<Rightarrow> json" where
  "output_json items show_whitelisted =
     JList (map json_entry
             (filter (\<lambda>i. \<not> (report i = [] \<and> \<not> show_whitelisted))
                (sorted_by (\<lambda>i. name (derivation i)) items)))"

datatype printed = Text string | Dump json

text \<open>
  \<^verbatim>\<open>output\<close> (the name is a keyword of Isabelle, hence the suffix): what is printed, and
  the exit code returned.
\<close>

definition output_items ::
  "(real \<Rightarrow> string) \<Rightarrow> filtered list \<Rightarrow> bool \<Rightarrow> bool \<Rightarrow> bool \<Rightarrow> printed list \<times> int" where
  "output_items float_str items json_dump show_whitelisted show_description =
     (let out = (if json_dump then [Dump (output_json items show_whitelisted)]
                 else map Text (output_text float_str items show_whitelisted show_description))
      in (out,
          if list_ex (\<lambda>i. report i \<noteq> []) items then 2
          else if show_whitelisted \<and> list_ex (\<lambda>i. masked i \<noteq> []) items then 1
          else 0))"

section \<open>The fixtures of the test suite\<close>

text \<open>
  The derivations, advisories and rules of \<^verbatim>\<open>tests/output_test.py\<close>. \<open>tenths\<close> writes a
  score with one decimal digit, as Python writes 9.8 and 5.0.
\<close>

definition deriv :: derive where
  "deriv = \<lparr>name = ''test-0.2'', pname = ''test'', version = Some ''0.2'',
            store_path = Some ''/nix/store/zsawgflc1fq77ijjzb1369zi6kxnc36j-test-0.2''\<rparr>"

definition deriv_vulns :: vuln_set where
  "deriv_vulns = [V ''CVE-2018-0001'' None None, V ''CVE-2018-0002'' None None,
                  V ''CVE-2018-0003'' (Some 9.8) None]"

definition deriv1 :: derive where
  "deriv1 = \<lparr>name = ''foo-1'', pname = ''foo'', version = Some ''1'', store_path = None\<rparr>"

definition deriv1_vulns :: vuln_set where
  "deriv1_vulns = [V ''CVE-2018-0004'' None None, V ''CVE-2018-0005'' None None]"

definition deriv2 :: derive where
  "deriv2 = \<lparr>name = ''bar-2'', pname = ''bar'', version = Some ''2'', store_path = None\<rparr>"

definition deriv2_vulns :: vuln_set where
  "deriv2_vulns = [V ''CVE-2018-0006'' (Some 5.0) None]"

definition items :: "filtered list" where
  "items = [Filtered deriv deriv_vulns, Filtered deriv1 deriv1_vulns, Filtered deriv2 deriv2_vulns]"

definition rule_with_cves :: whitelist_rule where
  "rule_with_cves = \<lparr>cve = Some [''CVE-2018-0001''], until = None, issue_url = [], comment = []\<rparr>"

definition unspecific_rule :: whitelist_rule where
  "unspecific_rule = \<lparr>cve = None, until = None, issue_url = [], comment = []\<rparr>"

definition temporary_rule :: whitelist_rule where
  "temporary_rule = \<lparr>cve = None, until = Some (2018, 3, 5), issue_url = [], comment = []\<rparr>"

definition empty_cve_rule :: whitelist_rule where
  "empty_cve_rule = \<lparr>cve = Some [], until = None, issue_url = [], comment = []\<rparr>"

definition issue_rule :: whitelist_rule where
  "issue_rule = \<lparr>cve = Some [''CVE-2018-0004''], until = None,
                  issue_url = [''https://tracker/4''], comment = []\<rparr>"

definition comment_rule :: whitelist_rule where
  "comment_rule = \<lparr>cve = None, until = None, issue_url = [], comment = [''irrelevant'']\<rparr>"

definition wl_items :: "filtered list" where
  "wl_items =
     [Filtered deriv deriv_vulns,
      add (Filtered deriv1 deriv1_vulns) issue_rule,
      add (Filtered deriv2 deriv2_vulns) comment_rule]"

definition masked_items :: "filtered list" where
  "masked_items = map (\<lambda>i. add i unspecific_rule) items"

definition tenths :: "real \<Rightarrow> string" where
  "tenths x = str_nat (nat \<lfloor>x\<rfloor>) @ ''.'' @ str_nat (nat \<lfloor>x * 10\<rfloor> mod 10)"

section \<open>The resolution engine\<close>

subsection \<open>Python values and exceptions\<close>

text \<open>
  The exceptions the engine can end with. \<open>RuntimeError\<close> carries the arguments it is
  raised with; \<open>SkipDrv\<close> is the signal of the recipe loader; \<open>External\<close> stands for
  whatever a collaborator raises (a command that exits with an error, text that is not
  JSON, a file that cannot be read).
\<close>

datatype error =
    RuntimeError "string list"
  | SkipDrv
  | KeyError string
  | IndexError
  | AttributeError
  | TypeError
  | External string

definition bind :: "error + 'a \<Rightarrow> ('a \<Rightarrow> error + 'b) \<Rightarrow> error + 'b" where
  "bind m f = (case m of Inl e \<Rightarrow> Inl e | Inr x \<Rightarrow> f x)"

text \<open>The truth value of a Python value in a condition.\<close>

fun truthy :: "json \<Rightarrow> bool" where
  "truthy JNull = False"
| "truthy (JBool b) = b"
| "truthy (JNum x) = (x \<noteq> 0)"
| "truthy (JStr s) = (s \<noteq> [])"
| "truthy (JList xs) = (xs \<noteq> [])"
| "truthy (JDict kvs) = (kvs \<noteq> [])"

text \<open>\<^verbatim>\<open>d.get(k)\<close>: \<open>None\<close> for a missing key; only a dict has the method.\<close>

definition py_get :: "json \<Rightarrow> string \<Rightarrow> error + json" where
  "py_get d k =
     (case d of
        JDict kvs \<Rightarrow> Inr (case map_of kvs k of None \<Rightarrow> JNull | Some v \<Rightarrow> v)
      | _ \<Rightarrow> Inl AttributeError)"

text \<open>\<^verbatim>\<open>d[k]\<close> for a string \<open>k\<close>.\<close>

definition py_index :: "json \<Rightarrow> string \<Rightarrow> error + json" where
  "py_index d k =
     (case d of
        JDict kvs \<Rightarrow> (case map_of kvs k of None \<Rightarrow> Inl (KeyError k) | Some v \<Rightarrow> Inr v)
      | _ \<Rightarrow> Inl TypeError)"

text \<open>
  \<^verbatim>\<open>for x in v\<close>: a list gives its members, a dict its keys, a string its characters;
  the other values are not iterable.
\<close>

definition py_iter :: "json \<Rightarrow> error + json list" where
  "py_iter v =
     (case v of
        JList xs \<Rightarrow> Inr xs
      | JDict kvs \<Rightarrow> Inr (map (\<lambda>kv. JStr (fst kv)) kvs)
      | JStr s \<Rightarrow> Inr (map (\<lambda>c. JStr [c]) s)
      | _ \<Rightarrow> Inl TypeError)"

text \<open>\<^verbatim>\<open>os.path.join(a, b)\<close> for a relative \<open>b\<close>.\<close>

definition p_join :: "string \<Rightarrow> string \<Rightarrow> string" where
  "p_join a b = (if a = [] \<or> last a = CHR ''/'' then a @ b else a @ ''/'' @ b)"

subsection \<open>The collaborators\<close>

text \<open>
  What the engine calls and does not define: \<^verbatim>\<open>utils.call\<close> (the output of a command, or
  its failure), \<^verbatim>\<open>os.path.exists\<close>, \<^verbatim>\<open>json.loads\<close>, \<^verbatim>\<open>derivation.load\<close> (a \<open>Derive\<close>, or
  \<open>SkipDrv\<close>, or another failure) and the reading of a file. They are parameters of the
  model, constant during one run.
\<close>

record world =
  call :: "string list \<Rightarrow> error + string"
  path_exists :: "string \<Rightarrow> bool"
  json_loads :: "string \<Rightarrow> error + json"
  load :: "string \<Rightarrow> error + derive"
  read_file :: "string \<Rightarrow> error + string"

subsection \<open>Store\<close>

text \<open>
  The attributes of \<^verbatim>\<open>Store\<close>. The set \<open>derivations\<close> is the list of its members.
\<close>

record store =
  requisites :: bool
  closure :: bool
  derivations :: "derive list"
  experimental_flag_needed :: "bool option"

definition Store :: "bool \<Rightarrow> bool \<Rightarrow> store" where
  "Store req clo =
     \<lparr>requisites = req, closure = clo, derivations = [], experimental_flag_needed = None\<rparr>"

text \<open>
  Modelled from the spec: the equality of \<open>Derive\<close> (\<^verbatim>\<open>derivation.py\<close> is not among the
  sources), by which \<^verbatim>\<open>self.derivations.add(drv_obj)\<close> keeps one object per name.
\<close>

definition derivations_add :: "derive list \<Rightarrow> derive \<Rightarrow> derive list" where
  "derivations_add ds d = (if name d \<in> name ` set ds then ds else ds @ [d])"

text \<open>
  The first statement of \<^verbatim>\<open>Store._call_nix\<close>: the probe of the help text, run once and
  cached in the store.
\<close>

definition probe :: "world \<Rightarrow> store \<Rightarrow> error + store" where
  "probe w self =
     (case experimental_flag_needed self of
        None \<Rightarrow>
          bind (call w [''nix'', ''--help''])
            (\<lambda>help. Inr (self\<lparr>experimental_flag_needed :=
                                  Some (contains help ''--experimental-features'')\<rparr>))
      | Some b \<Rightarrow> Inr self)"

text \<open>\<^verbatim>\<open>Store._call_nix\<close>: the output of the command and the store with the probe cached.\<close>

definition call_nix :: "world \<Rightarrow> store \<Rightarrow> string list \<Rightarrow> error + (string \<times> store)" where
  "call_nix w self args =
     bind (probe w self)
       (\<lambda>self1.
          bind (if experimental_flag_needed self1 = Some True
                then call w ([''nix'', ''--experimental-features'', ''nix-command flakes''] @ args)
                else call w ([''nix''] @ args))
            (\<lambda>out. Inr (out, self1)))"

text \<open>\<^verbatim>\<open>list(json.loads(...).keys())[0]\<close>\<close>

definition first_key :: "json \<Rightarrow> error + string" where
  "first_key j =
     (case j of
        JDict kvs \<Rightarrow> (case kvs of [] \<Rightarrow> Inl IndexError | kv # rest \<Rightarrow> Inr (fst kv))
      | _ \<Rightarrow> Inl AttributeError)"

text \<open>The exception at the end of \<^verbatim>\<open>Store._find_deriver\<close> (lines 86 to 95).\<close>

definition deriver_error :: "string \<Rightarrow> string \<Rightarrow> string \<Rightarrow> error" where
  "deriver_error path qpi_deriver qvd_deriver =
     (let e1 = (if qpi_deriver \<noteq> [] \<and> qpi_deriver \<noteq> ''unknown-deriver''
                then ''Deriver `'' @ qpi_deriver @ ''` does not exist.  '' else []);
          e2 = (if qvd_deriver \<noteq> [] \<and> qvd_deriver \<noteq> qpi_deriver
                then ''Deriver `'' @ qvd_deriver @ ''` does not exist.  '' else []);
          err = e1 @ e2
      in if err \<noteq> []
         then RuntimeError [err @ ''Couldn't find deriver for path `'' @ path @ ''`'']
         else RuntimeError
                [''Cannot determine deriver. Is this really a path into the nix store?'', path])"

text \<open>
  \<^verbatim>\<open>Store._find_deriver\<close>. \<open>path\<close> and \<open>qpi_deriver\<close> are Python values: the callers pass
  strings, or what \<^verbatim>\<open>info.get\<close> returned. The result is \<open>None\<close> or the deriver. A path
  that is true and not a string has no \<^verbatim>\<open>endswith\<close>; for a deriver that is true and
  not a string \<^verbatim>\<open>os.path.exists\<close> is not modelled and the model stops with \<open>TypeError\<close>.
\<close>

definition find_deriver ::
  "world \<Rightarrow> store \<Rightarrow> json \<Rightarrow> json \<Rightarrow> error + (string option \<times> store)" where
  "find_deriver w self path qpi_deriver =
     (if \<not> truthy path \<or> \<not> truthy qpi_deriver then Inr (None, self)
      else case path of
        JStr p \<Rightarrow>
          if endswith p ''.drv'' then Inr (Some p, self)
          else
            bind (if qpi_deriver = JStr ''undef''
                  then bind (call w [''nix-store'', ''-qd'', p]) (\<lambda>out. Inr (JStr (strip out)))
                  else Inr qpi_deriver)
              (\<lambda>qpi. case qpi of
                 JStr q \<Rightarrow>
                   if q \<noteq> [] \<and> q \<noteq> ''unknown-deriver'' \<and> path_exists w q
                   then Inr (Some q, self)
                   else
                     bind (call_nix w self [''show-derivation'', p])
                       (\<lambda>(out, self1).
                          bind (json_loads w out)
                            (\<lambda>j. bind (first_key j)
                               (\<lambda>qvd_deriver.
                                  if qvd_deriver \<noteq> [] \<and> path_exists w qvd_deriver
                                  then Inr (Some qvd_deriver, self1)
                                  else Inl (deriver_error p q qvd_deriver))))
               | _ \<Rightarrow> Inl TypeError)
      | _ \<Rightarrow> Inl AttributeError)"

text \<open>\<^verbatim>\<open>Store.update\<close>; \<open>drv_path\<close> is \<open>None\<close> or a string.\<close>

definition update :: "world \<Rightarrow> store \<Rightarrow> string option \<Rightarrow> error + store" where
  "update w self drv_path =
     (case drv_path of
        None \<Rightarrow> Inr self
      | Some p \<Rightarrow>
          if p = [] \<or> \<not> endswith p ''.drv'' then Inr self
          else (case load w p of
                  Inl SkipDrv \<Rightarrow> Inr self
                | Inl e \<Rightarrow> Inl e
                | Inr drv_obj \<Rightarrow>
                    Inr (self\<lparr>derivations := derivations_add (derivations self) drv_obj\<rparr>)))"

text \<open>\<^verbatim>\<open>for candidate in lines: self.update(candidate)\<close>\<close>

fun update_each :: "world \<Rightarrow> store \<Rightarrow> string list \<Rightarrow> error + store" where
  "update_each w self [] = Inr self"
| "update_each w self (candidate # rest) =
     bind (update w self (Some candidate)) (\<lambda>self1. update_each w self1 rest)"

text \<open>\<^verbatim>\<open>Store.add_gc_roots\<close>\<close>

definition add_gc_roots :: "world \<Rightarrow> store \<Rightarrow> error + store" where
  "add_gc_roots w self =
     bind (call w [''nix-store'', ''--gc'', ''--print-live''])
       (\<lambda>out. update_each w self (splitlines out))"

text \<open>
  The loops of \<^verbatim>\<open>Store._find_outputs\<close>: the \<^verbatim>\<open>path\<close> entries of the outputs of one
  derivation, and of all derivations of the description.
\<close>

fun output_paths :: "json list \<Rightarrow> error + json list" where
  "output_paths [] = Inr []"
| "output_paths (output # rest) =
     bind (py_get output ''path'')
       (\<lambda>p. bind (output_paths rest) (\<lambda>ps. Inr (p # ps)))"

definition py_values :: "json \<Rightarrow> error + json list" where
  "py_values j = (case j of JDict kvs \<Rightarrow> Inr (map snd kvs) | _ \<Rightarrow> Inl AttributeError)"

fun drv_outputs :: "json list \<Rightarrow> error + json list" where
  "drv_outputs [] = Inr []"
| "drv_outputs (drv # rest) =
     bind (py_get drv ''outputs'')
       (\<lambda>outs. bind (py_values outs)
          (\<lambda>vs. bind (output_paths vs)
             (\<lambda>ps. bind (drv_outputs rest) (\<lambda>qs. Inr (ps @ qs)))))"

text \<open>\<^verbatim>\<open>Store._find_outputs\<close>\<close>

definition find_outputs :: "world \<Rightarrow> store \<Rightarrow> string \<Rightarrow> error + (json list \<times> store)" where
  "find_outputs w self path =
     (if \<not> endswith path ''.drv'' then Inr ([JStr path], self)
      else
        bind (call_nix w self [''show-derivation'', path])
          (\<lambda>(out, self1).
             bind (json_loads w out)
               (\<lambda>j. bind (py_values j)
                  (\<lambda>drvs. bind (drv_outputs drvs) (\<lambda>result. Inr (result, self1))))))"

text \<open>
  The two loops of \<^verbatim>\<open>Store.add_path\<close> over the result of \<^verbatim>\<open>nix path-info -r --json\<close>:
  over the items of a dict (lines 125 to 128), and over a list (lines 130 to 134).
\<close>

fun add_path_dict :: "world \<Rightarrow> store \<Rightarrow> (string \<times> json) list \<Rightarrow> error + store" where
  "add_path_dict w self [] = Inr self"
| "add_path_dict w self ((outpath, info) # rest) =
     bind (py_get info ''deriver'')
       (\<lambda>drv. bind (find_deriver w self (JStr outpath) drv)
          (\<lambda>(candidate, self1).
             bind (update w self1 candidate) (\<lambda>self2. add_path_dict w self2 rest)))"

fun add_path_list :: "world \<Rightarrow> store \<Rightarrow> json list \<Rightarrow> error + store" where
  "add_path_list w self [] = Inr self"
| "add_path_list w self (info # rest) =
     bind (py_get info ''path'')
       (\<lambda>outpath. bind (py_get info ''deriver'')
          (\<lambda>drv. bind (find_deriver w self outpath drv)
             (\<lambda>(candidate, self1).
                bind (update w self1 candidate) (\<lambda>self2. add_path_list w self2 rest))))"

text \<open>
  What \<^verbatim>\<open>Store.add_path\<close> does with the parsed result of the query (lines 120 to
  136): nothing for a result that is false, one of the two loops for a dict or a list,
  a warning for anything else.
\<close>

definition add_path_data :: "world \<Rightarrow> store \<Rightarrow> json \<Rightarrow> error + store" where
  "add_path_data w self data =
     (if \<not> truthy data then Inr self
      else case data of
        JDict kvs \<Rightarrow> add_path_dict w self kvs
      | JList infos \<Rightarrow> add_path_list w self infos
      | _ \<Rightarrow> Inr self)"

text \<open>
  The body of the loop over the outputs in \<^verbatim>\<open>Store.add_path\<close> (lines 119 to 136). An
  output that is not a string cannot be an argument of the command: the call fails
  after the probe.
\<close>

definition add_path_output :: "world \<Rightarrow> store \<Rightarrow> json \<Rightarrow> error + store" where
  "add_path_output w self output =
     (case output of
        JStr out \<Rightarrow>
          bind (call_nix w self [''path-info'', ''-r'', ''--json'', out])
            (\<lambda>(txt, self1). bind (json_loads w txt) (\<lambda>data. add_path_data w self1 data))
      | _ \<Rightarrow> bind (probe w self) (\<lambda>self1. Inl TypeError))"

fun add_path_outputs :: "world \<Rightarrow> store \<Rightarrow> json list \<Rightarrow> error + store" where
  "add_path_outputs w self [] = Inr self"
| "add_path_outputs w self (output # rest) =
     bind (add_path_output w self output) (\<lambda>self1. add_path_outputs w self1 rest)"

text \<open>\<^verbatim>\<open>Store.add_path\<close>\<close>

definition add_path :: "world \<Rightarrow> store \<Rightarrow> string \<Rightarrow> error + store" where
  "add_path w self path =
     (if \<not> path_exists w path
      then Inl (RuntimeError
                  [''path `'' @ path
                   @ ''` does not exist - cannot load derivations referenced from it''])
      else if closure self then
        bind (find_outputs w self path)
          (\<lambda>(outputs, self1). add_path_outputs w self1 outputs)
      else
        bind (find_deriver w self (JStr path) (JStr ''undef''))
          (\<lambda>(deriver, self1).
             if requisites self1 then
               (case deriver of
                  None \<Rightarrow> Inl TypeError
                | Some d \<Rightarrow>
                    bind (call w [''nix-store'', ''-qR'', d])
                      (\<lambda>out. update_each w self1 (splitlines out)))
             else update w self1 deriver))"

text \<open>
  \<^verbatim>\<open>Store.add_profile\<close>: the loop over the store paths of one element, the handling of
  one element, and the loops over a dict and over a list of elements (lines 37 to 49). A
  store path that is not a string is not modelled further (\<open>TypeError\<close>).
\<close>

fun add_store_paths :: "world \<Rightarrow> store \<Rightarrow> json list \<Rightarrow> error + store" where
  "add_store_paths w self [] = Inr self"
| "add_store_paths w self (path # rest) =
     bind (case path of JStr p \<Rightarrow> add_path w self p | _ \<Rightarrow> Inl TypeError)
       (\<lambda>self1. add_store_paths w self1 rest)"

definition add_element :: "world \<Rightarrow> store \<Rightarrow> json \<Rightarrow> error + store" where
  "add_element w self element =
     bind (py_index element ''active'')
       (\<lambda>active.
          if \<not> truthy active then Inr self
          else bind (py_index element ''storePaths'')
                 (\<lambda>sp. bind (py_iter sp) (\<lambda>paths. add_store_paths w self paths)))"

fun add_elements_dict ::
  "world \<Rightarrow> store \<Rightarrow> (string \<times> json) list \<Rightarrow> string list \<Rightarrow> error + store" where
  "add_elements_dict w self elements [] = Inr self"
| "add_elements_dict w self elements (key # rest) =
     bind (py_index (JDict elements) key)
       (\<lambda>element. bind (add_element w self element)
          (\<lambda>self1. add_elements_dict w self1 elements rest))"

fun add_elements_list :: "world \<Rightarrow> store \<Rightarrow> json list \<Rightarrow> error + store" where
  "add_elements_list w self [] = Inr self"
| "add_elements_list w self (element # rest) =
     bind (add_element w self element) (\<lambda>self1. add_elements_list w self1 rest)"

text \<open>\<^verbatim>\<open>self.add_path(line.split()[1])\<close> for each line of the legacy listing.\<close>

fun add_profile_lines :: "world \<Rightarrow> store \<Rightarrow> string list \<Rightarrow> error + store" where
  "add_profile_lines w self [] = Inr self"
| "add_profile_lines w self (line # rest) =
     bind (case split line of
             a # b # toks \<Rightarrow> add_path w self b
           | _ \<Rightarrow> Inl IndexError)
       (\<lambda>self1. add_profile_lines w self1 rest)"

text \<open>
  What \<^verbatim>\<open>Store.add_profile\<close> does with the parsed manifest (lines 34 to 49): the two
  \<^verbatim>\<open>if isinstance\<close> statements, one after the other.
\<close>

definition add_manifest :: "world \<Rightarrow> store \<Rightarrow> json \<Rightarrow> error + store" where
  "add_manifest w self json_manifest =
     bind (py_index json_manifest ''elements'')
       (\<lambda>elements.
          bind (case elements of
                  JDict kvs \<Rightarrow> add_elements_dict w self kvs (map fst kvs)
                | _ \<Rightarrow> Inr self)
            (\<lambda>self1. case elements of
                        JList es \<Rightarrow> add_elements_list w self1 es
                      | _ \<Rightarrow> Inr self1))"

text \<open>\<^verbatim>\<open>Store.add_profile\<close>\<close>

definition add_profile :: "world \<Rightarrow> store \<Rightarrow> string \<Rightarrow> error + store" where
  "add_profile w self profile =
     (let json_manifest_path = p_join profile ''manifest.json''
      in if path_exists w json_manifest_path then
           bind (read_file w json_manifest_path)
             (\<lambda>txt. bind (json_loads w txt) (\<lambda>json_manifest. add_manifest w self json_manifest))
         else
           bind (call w [''nix-env'', ''-q'', ''--out-path'', ''--profile'', profile])
             (\<lambda>out. add_profile_lines w self (splitlines out)))"

subsection \<open>The two shapes of the tool's output\<close>

text \<open>
  The command lines of the recursive path-info query, as \<^verbatim>\<open>_call_nix\<close> builds them.
\<close>

definition path_info_args :: "string list \<Rightarrow> bool" where
  "path_info_args argv =
     (argv \<noteq> [] \<and>
      (butlast argv = [''nix'', ''path-info'', ''-r'', ''--json'']
       \<or> butlast argv = [''nix'', ''--experimental-features'', ''nix-command flakes'',
                          ''path-info'', ''-r'', ''--json'']))"

text \<open>
  Equivalent content, following the spec: the list-shaped result of the path-info query
  has one record per item of the mapping, in the same order, with the item's key as its
  \<open>path\<close> and the item's \<open>deriver\<close>; the list-shaped \<open>elements\<close> of a manifest are the
  values of the mapping, in order (the keys of a mapping are distinct).
\<close>

definition same_records :: "(string \<times> json) list \<Rightarrow> json list \<Rightarrow> bool" where
  "same_records kvs infos =
     list_all2 (\<lambda>kv info. py_get info ''path'' = Inr (JStr (fst kv))
                         \<and> py_get info ''deriver'' = py_get (snd kv) ''deriver'') kvs infos"

definition path_info_variant :: "json \<Rightarrow> json \<Rightarrow> bool" where
  "path_info_variant a b =
     (case a of
        JDict kvs \<Rightarrow> (case b of JList infos \<Rightarrow> same_records kvs infos | _ \<Rightarrow> False)
      | _ \<Rightarrow> False)"

definition manifest_variant :: "json \<Rightarrow> json \<Rightarrow> bool" where
  "manifest_variant a b =
     (case py_index a ''elements'' of
        Inr (JDict kvs) \<Rightarrow>
          distinct (map fst kvs) \<and> py_index b ''elements'' = Inr (JList (map snd kvs))
      | _ \<Rightarrow> False)"

text \<open>Two texts that parse to related values.\<close>

definition text_variant ::
  "world \<Rightarrow> (json \<Rightarrow> json \<Rightarrow> bool) \<Rightarrow> error + string \<Rightarrow> error + string \<Rightarrow> bool" where
  "text_variant w rel r r' =
     (case r of
        Inr t \<Rightarrow>
          (case r' of
             Inr t' \<Rightarrow>
               (case json_loads w t of
                  Inr a \<Rightarrow> (case json_loads w t' of Inr b \<Rightarrow> rel a b | _ \<Rightarrow> False)
                | _ \<Rightarrow> False)
           | _ \<Rightarrow> False)
      | _ \<Rightarrow> False)"

text \<open>
  Two worlds that differ only in the shape of these two inputs: wherever \<open>w\<close> answers a
  path-info query, or holds a manifest, \<open>w'\<close> gives the same answer or the list-shaped
  variant of a mapping-shaped one; everything else is the same.
\<close>

definition variants :: "world \<Rightarrow> world \<Rightarrow> bool" where
  "variants w w' =
     (path_exists w' = path_exists w \<and> load w' = load w \<and> json_loads w' = json_loads w
      \<and> (\<forall>argv. call w' argv = call w argv
             \<or> (path_info_args argv
                 \<and> text_variant w path_info_variant (call w argv) (call w' argv)))
      \<and> (\<forall>f. read_file w' f = read_file w f
             \<or> text_variant w manifest_variant (read_file w f) (read_file w' f)))"

subsection \<open>A small store\<close>

text \<open>
  A world for concrete runs. \<open>foo-1\<close> is built from a recipe that is on disk; \<open>lib-baz\<close>
  is in its closure and has no deriver recorded; \<open>xyz-bar-2\<close> has an unknown deriver and a
  description without a recipe path; \<open>old-qux\<close> has derivers that are gone; \<open>src-tarball\<close>
  has an unknown deriver and an empty description. The texts the
  commands print are abbreviated; \<open>json_loads\<close> gives what they stand for. \<open>map_world\<close>
  answers in the mapping shapes, \<open>list_world\<close> in the list shapes.
\<close>

definition map_world :: world where
  "map_world =
     \<lparr>call = (\<lambda>argv.
         if argv = [''nix'', ''--help''] then Inr ''Usage: nix <COMMAND>''
         else if argv = [''nix'', ''path-info'', ''-r'', ''--json'', ''/nix/store/abc-foo-1'']
           then Inr ''path-info as a mapping''
         else if argv = [''nix-store'', ''-qd'', ''/nix/store/xyz-bar-2'']
           then Inr (''unknown-deriver'' @ [CHR 0x0A])
         else if argv = [''nix'', ''show-derivation'', ''/nix/store/xyz-bar-2'']
           then Inr ''no recipe''
         else if argv = [''nix-store'', ''-qd'', ''/nix/store/old-qux'']
           then Inr (''/nix/store/gone-qux.drv'' @ [CHR 0x0A])
         else if argv = [''nix'', ''show-derivation'', ''/nix/store/old-qux'']
           then Inr ''stale recipe''
         else if argv = [''nix-store'', ''-qd'', ''/nix/store/src-tarball'']
           then Inr (''unknown-deriver'' @ [CHR 0x0A])
         else if argv = [''nix'', ''show-derivation'', ''/nix/store/src-tarball'']
           then Inr ''empty description''
         else Inl (External ''command failed'')),
      path_exists = (\<lambda>p. p \<in> set [''/nix/store/abc-foo-1'', ''/nix/store/abc-foo-1.drv'',
                                    ''/nix/store/xyz-bar-2'', ''/nix/store/old-qux'',
                                    ''/nix/store/src-tarball'',
                                    ''/profile/manifest.json'']),
      json_loads = (\<lambda>txt.
         if txt = ''path-info as a mapping'' then
           Inr (JDict [(''/nix/store/abc-foo-1'',
                         JDict [(''deriver'', JStr ''/nix/store/abc-foo-1.drv'')]),
                       (''/nix/store/lib-baz'', JDict [(''narSize'', JNum 1)])])
         else if txt = ''path-info as a list'' then
           Inr (JList [JDict [(''path'', JStr ''/nix/store/abc-foo-1''),
                              (''deriver'', JStr ''/nix/store/abc-foo-1.drv'')],
                       JDict [(''path'', JStr ''/nix/store/lib-baz''), (''narSize'', JNum 1)]])
         else if txt = ''manifest as a mapping'' then
           Inr (JDict [(''version'', JNum 3),
                       (''elements'',
                          JDict [(''foo'', JDict [(''active'', JBool True),
                                    (''storePaths'', JList [JStr ''/nix/store/abc-foo-1''])]),
                                 (''old'', JDict [(''active'', JBool False),
                                    (''storePaths'', JList [JStr ''/nix/store/gone''])])])])
         else if txt = ''manifest as a list'' then
           Inr (JDict [(''version'', JNum 2),
                       (''elements'',
                          JList [JDict [(''active'', JBool True),
                                    (''storePaths'', JList [JStr ''/nix/store/abc-foo-1''])],
                                 JDict [(''active'', JBool False),
                                    (''storePaths'', JList [JStr ''/nix/store/gone''])]])])
         else if txt = ''no recipe'' then Inr (JDict [([], JDict [])])
         else if txt = ''stale recipe'' then Inr (JDict [(''/nix/store/stale-qux.drv'', JDict [])])
         else if txt = ''empty description'' then Inr (JDict [])
         else Inl (External ''JSONDecodeError'')),
      load = (\<lambda>p. if p = ''/nix/store/abc-foo-1.drv'' then Inr deriv1 else Inl SkipDrv),
      read_file = (\<lambda>f. if f = ''/profile/manifest.json'' then Inr ''manifest as a mapping''
                        else Inl (External ''FileNotFoundError''))\<rparr>"

definition list_world :: world where
  "list_world =
     map_world
       \<lparr>call := (\<lambda>argv.
           if argv = [''nix'', ''path-info'', ''-r'', ''--json'', ''/nix/store/abc-foo-1'']
           then Inr ''path-info as a list'' else call map_world argv),
        read_file := (\<lambda>f. if f = ''/profile/manifest.json'' then Inr ''manifest as a list''
                           else read_file map_world f)\<rparr>"

section \<open>Properties of the filtering engine\<close>

lemmas fixture_defs = deriv_def deriv_vulns_def rule_with_cves_def unspecific_rule_def
  temporary_rule_def V_def

lemmas add_eval = add_def mask_step_def mask_all_def update_until_def py_set_def set_union_def
  set_diff_def set_add_def py_in_def ids_def Filtered_def add_all_def Let_def

subsection \<open>Python set operations on sets without repeated identifiers\<close>

lemma ids_set_add: "ids (set_add A v) = insert (cve_id v) (ids A)"
  by (auto simp: set_add_def py_in_def ids_def)

lemma foldl_set_add_fresh:
  "distinct (map cve_id B) \<Longrightarrow> ids A \<inter> ids B = {} \<Longrightarrow> foldl set_add A B = A @ B"
proof (induction B arbitrary: A)
  case Nil
  then show ?case by simp
next
  case (Cons b B)
  have b: "set_add A b = A @ [b]"
    using Cons.prems(2) by (auto simp: set_add_def py_in_def ids_def)
  have "ids (A @ [b]) \<inter> ids B = {}"
    using Cons.prems by (auto simp: ids_def)
  with Cons.IH[of "A @ [b]"] Cons.prems(1) show ?case
    by (simp add: b)
qed

lemma py_set_distinct: "distinct (map cve_id xs) \<Longrightarrow> py_set xs = xs"
  using foldl_set_add_fresh[of xs "[]"] by (simp add: py_set_def ids_def)

lemma set_union_fresh:
  "distinct (map cve_id B) \<Longrightarrow> ids A \<inter> ids B = {} \<Longrightarrow> set_union A B = A @ B"
  by (simp add: set_union_def foldl_set_add_fresh)

lemma set_diff_filter:
  "set_diff A (filter (\<lambda>v. cve_id v \<in> S) A) = filter (\<lambda>v. cve_id v \<notin> S) A"
  unfolding set_diff_def py_in_def ids_def
  by (rule filter_cong) auto

lemma mask_step_wf:
  assumes "well_formed f"
  shows "mask_step cs f =
           f\<lparr>report := filter (\<lambda>v. cve_id v \<notin> set cs) (report f),
             masked := masked f @ filter (\<lambda>v. cve_id v \<in> set cs) (report f)\<rparr>"
proof -
  let ?m = "filter (\<lambda>v. cve_id v \<in> set cs) (report f)"
  have d: "distinct (map cve_id ?m)"
    using assms by (simp add: well_formed_def distinct_map_filter)
  have i: "ids (masked f) \<inter> ids ?m = {}"
    using assms by (auto simp: well_formed_def ids_def)
  show ?thesis
    by (simp add: mask_step_def Let_def py_set_distinct[OF d] set_diff_filter
        set_union_fresh[OF d i])
qed

lemma wf_mask_step: "well_formed f \<Longrightarrow> well_formed (mask_step cs f)"
  by (auto simp: mask_step_wf well_formed_def distinct_map_filter)

lemma mask_step_idem: "well_formed f \<Longrightarrow> mask_step cs (mask_step cs f) = mask_step cs f"
  using wf_mask_step[of f cs] by (simp add: mask_step_wf[of "mask_step cs f"]) (simp add: mask_step_wf)

lemma fold_mask_step:
  "well_formed f \<Longrightarrow> cs' \<noteq> [] \<Longrightarrow> fold (\<lambda>r s. mask_step cs s) cs' f = mask_step cs f"
proof (induction cs' arbitrary: f)
  case Nil
  then show ?case by simp
next
  case (Cons c cs')
  show ?case
  proof (cases "cs' = []")
    case True
    then show ?thesis by simp
  next
    case False
    with Cons.IH[of "mask_step cs f"] Cons.prems(1) show ?thesis
      by (simp add: wf_mask_step mask_step_idem)
  qed
qed

lemma mask_all_wf:
  assumes "well_formed f"
  shows "mask_all f = f\<lparr>masked := masked f @ report f, report := []\<rparr>"
proof -
  have d: "distinct (map cve_id (report f))" using assms by (simp add: well_formed_def)
  have i: "ids (masked f) \<inter> ids (report f) = {}"
    using assms by (auto simp: well_formed_def ids_def)
  show ?thesis by (simp add: mask_all_def set_union_fresh[OF d i])
qed

lemma wf_mask_all: "well_formed f \<Longrightarrow> well_formed (mask_all f)"
  by (auto simp: mask_all_wf well_formed_def)

lemma update_until_fields [simp]:
  "report (update_until u f) = report f"
  "masked (update_until u f) = masked f"
  "rules (update_until u f) = rules f"
  "derivation (update_until u f) = derivation f"
  by (simp_all add: update_until_def split: option.splits)

lemma wf_update_until [simp]: "well_formed (update_until u f) = well_formed f"
  by (simp add: well_formed_def)

lemma wf_rules_update [simp]: "well_formed (f\<lparr>rules := rs\<rparr>) = well_formed f"
  by (simp add: well_formed_def)

lemma add_cases:
  assumes "well_formed f"
  shows "add f r =
    (let s2 = update_until (whitelist_rule.until r) (f\<lparr>rules := rules f @ [r]\<rparr>)
     in case cve r of
          None \<Rightarrow> mask_all s2
        | Some cs \<Rightarrow> if cs \<noteq> [] then mask_step cs s2 else mask_all s2)"
  using assms by (simp add: add_def Let_def fold_mask_step split: option.splits)

lemma wf_add: "well_formed f \<Longrightarrow> well_formed (add f r)"
  by (simp add: add_cases Let_def wf_mask_step wf_mask_all split: option.splits)

lemma wf_Filtered: "distinct (map cve_id vs) \<Longrightarrow> well_formed (Filtered d vs)"
  by (simp add: well_formed_def Filtered_def)

lemma wf_add_all: "well_formed f \<Longrightarrow> well_formed (add_all f rs)"
  unfolding add_all_def by (induction rs arbitrary: f) (simp_all add: wf_add)

lemma add_all_append: "add_all f (rs @ rs') = add_all (add_all f rs) rs'"
  by (simp add: add_all_def)

lemma add_report:
  "well_formed f \<Longrightarrow> report (add f r) =
     (case cve r of None \<Rightarrow> []
      | Some cs \<Rightarrow> if cs \<noteq> [] then filter (\<lambda>v. cve_id v \<notin> set cs) (report f) else [])"
  by (simp add: add_cases Let_def mask_step_wf mask_all_wf split: option.splits)

lemma add_masked:
  "well_formed f \<Longrightarrow> masked (add f r) =
     (case cve r of None \<Rightarrow> masked f @ report f
      | Some cs \<Rightarrow> if cs \<noteq> [] then masked f @ filter (\<lambda>v. cve_id v \<in> set cs) (report f)
                   else masked f @ report f)"
  by (simp add: add_cases Let_def mask_step_wf mask_all_wf split: option.splits)

lemma add_union: "well_formed f \<Longrightarrow>
  set (report (add f r)) \<union> set (masked (add f r)) = set (report f) \<union> set (masked f)"
  by (auto simp: add_report add_masked split: option.splits)

lemma add_masked_mono: "well_formed f \<Longrightarrow> set (masked f) \<subseteq> set (masked (add f r))"
  by (auto simp: add_masked split: option.splits)

lemma add_all_union: "well_formed f \<Longrightarrow>
  set (report (add_all f rs)) \<union> set (masked (add_all f rs)) = set (report f) \<union> set (masked f)"
proof (induction rs arbitrary: f)
  case Nil
  then show ?case by (simp add: add_all_def)
next
  case (Cons r rs)
  from Cons.IH[of "add f r"] Cons.prems show ?case
    by (simp add: add_all_def wf_add add_union)
qed

lemma add_all_masked_mono:
  "well_formed f \<Longrightarrow> set (masked f) \<subseteq> set (masked (add_all f rs))"
proof (induction rs arbitrary: f)
  case Nil
  then show ?case by (simp add: add_all_def)
next
  case (Cons r rs)
  from Cons.IH[of "add f r"] Cons.prems add_masked_mono[of f r] show ?case
    by (auto simp: add_all_def wf_add)
qed

lemma wf_disjoint:
  "well_formed f \<Longrightarrow> ids (report f) \<inter> ids (masked f) = {} \<and> set (report f) \<inter> set (masked f) = {}"
  by (auto simp: well_formed_def ids_def)

text \<open>
  Claim C1. For a \<open>Filtered\<close> built from a derivation and a set of advisories (no
  identifier twice), after any sequence \<open>rs\<close> of \<^verbatim>\<open>add\<close> calls: \<open>report\<close> and \<open>masked\<close>
  are disjoint, as elements and as identifiers; their union is the initial set; and
  whatever is in \<open>masked\<close> after \<open>rs\<close> is still there, and not in \<open>report\<close>, after any
  further calls \<open>rs'\<close>.
\<close>

theorem filtered_partition:
  assumes "distinct (map cve_id vs)"
  shows "set (report (add_all (Filtered d vs) rs)) \<inter> set (masked (add_all (Filtered d vs) rs)) = {}
       \<and> ids (report (add_all (Filtered d vs) rs)) \<inter> ids (masked (add_all (Filtered d vs) rs)) = {}
       \<and> set (report (add_all (Filtered d vs) rs)) \<union> set (masked (add_all (Filtered d vs) rs)) = set vs
       \<and> set (masked (add_all (Filtered d vs) rs)) \<subseteq> set (masked (add_all (Filtered d vs) (rs @ rs')))
       \<and> set (masked (add_all (Filtered d vs) rs)) \<inter> set (report (add_all (Filtered d vs) (rs @ rs'))) = {}"
proof -
  let ?f = "add_all (Filtered d vs) rs"
  let ?g = "add_all (Filtered d vs) (rs @ rs')"
  have w0: "well_formed (Filtered d vs)" using assms by (rule wf_Filtered)
  have w: "well_formed ?f" using w0 by (rule wf_add_all)
  have g: "?g = add_all ?f rs'" by (rule add_all_append)
  have w': "well_formed ?g" using w0 by (rule wf_add_all)
  have u: "set (report ?f) \<union> set (masked ?f) = set vs"
    using add_all_union[OF w0, of rs] by (simp add: Filtered_def)
  have m: "set (masked ?f) \<subseteq> set (masked ?g)"
    unfolding g using w by (rule add_all_masked_mono)
  have "set (masked ?g) \<inter> set (report ?g) = {}"
    using wf_disjoint[OF w'] by blast
  with m have n: "set (masked ?f) \<inter> set (report ?g) = {}" by blast
  from wf_disjoint[OF w] u m n show ?thesis by blast
qed

theorem filtered_partition_witness:
  "distinct (map cve_id deriv_vulns)
   \<and> (set (report (add_all (Filtered deriv deriv_vulns) [rule_with_cves]))
        \<inter> set (masked (add_all (Filtered deriv deriv_vulns) [rule_with_cves])) = {}
      \<and> ids (report (add_all (Filtered deriv deriv_vulns) [rule_with_cves]))
        \<inter> ids (masked (add_all (Filtered deriv deriv_vulns) [rule_with_cves])) = {}
      \<and> set (report (add_all (Filtered deriv deriv_vulns) [rule_with_cves]))
        \<union> set (masked (add_all (Filtered deriv deriv_vulns) [rule_with_cves])) = set deriv_vulns
      \<and> set (masked (add_all (Filtered deriv deriv_vulns) [rule_with_cves]))
        \<subseteq> set (masked (add_all (Filtered deriv deriv_vulns) ([rule_with_cves] @ [unspecific_rule])))
      \<and> set (masked (add_all (Filtered deriv deriv_vulns) [rule_with_cves]))
        \<inter> set (report (add_all (Filtered deriv deriv_vulns) ([rule_with_cves] @ [unspecific_rule]))) = {})"
proof -
  have h: "distinct (map cve_id deriv_vulns)" by (simp add: deriv_vulns_def V_def)
  from h filtered_partition[OF h, of deriv "[rule_with_cves]" "[unspecific_rule]"]
  show ?thesis by blast
qed

subsection \<open>Rule application\<close>

lemma until_mask_step [simp]: "filtered.until (mask_step cs f) = filtered.until f"
  by (simp add: mask_step_def Let_def)

lemma until_mask_all [simp]: "filtered.until (mask_all f) = filtered.until f"
  by (simp add: mask_all_def)

lemma until_fold_mask_step [simp]:
  "filtered.until (fold (\<lambda>r s. mask_step cs s) cs' f) = filtered.until f"
  by (induction cs' arbitrary: f) simp_all

lemma until_add:
  "filtered.until (add f r) =
     (case whitelist_rule.until r of
        None \<Rightarrow> filtered.until f
      | Some u \<Rightarrow> (case filtered.until f of None \<Rightarrow> Some u | Some t \<Rightarrow> Some (min t u)))"
  by (auto simp: add_def Let_def update_until_def min_def split: option.splits)

lemma expiry_dates_Cons:
  "expiry_dates (r # rs) =
     (case whitelist_rule.until r of None \<Rightarrow> expiry_dates rs | Some u \<Rightarrow> u # expiry_dates rs)"
  by (simp add: expiry_dates_def List.map_filter_simps split: option.splits)

lemma Min_insert_min:
  fixes t u :: date
  shows "Min (insert (min t u) (set ds)) = Min (insert t (insert u (set ds)))"
proof (cases "ds = []")
  case True
  then show ?thesis by (simp add: min.commute)
next
  case False
  then show ?thesis by (simp add: min.assoc)
qed

lemma until_add_all:
  "filtered.until (add_all f rs) = combine (filtered.until f) (expiry_dates rs)"
proof (induction rs arbitrary: f)
  case Nil
  then show ?case
    by (simp add: add_all_def combine_def expiry_dates_def List.map_filter_simps split: option.splits)
next
  case (Cons r rs)
  have "filtered.until (add_all f (r # rs)) = combine (filtered.until (add f r)) (expiry_dates rs)"
    using Cons.IH[of "add f r"] by (simp add: add_all_def)
  also have "\<dots> = combine (filtered.until f) (expiry_dates (r # rs))"
    by (cases "whitelist_rule.until r"; cases "filtered.until f")
       (simp_all add: until_add combine_def expiry_dates_Cons Min_insert_min)
  finally show ?case .
qed

text \<open>
  Claim C5. After any sequence of rules the tracked \<open>until\<close> is the minimum of the expiry
  dates of the rules applied (absent if none carried one); one \<^verbatim>\<open>add\<close> never raises it;
  a rule without expiry date leaves it as it is.
\<close>

theorem earliest_expiry:
  "filtered.until (add_all (Filtered d vs) rs) = spec_earliest_expiry rs
   \<and> expiry_le (filtered.until (add f r)) (filtered.until f)
   \<and> (whitelist_rule.until r = None \<longrightarrow> filtered.until (add f r) = filtered.until f)"
proof -
  have "filtered.until (add_all (Filtered d vs) rs) = spec_earliest_expiry rs"
    by (simp add: until_add_all combine_def spec_earliest_expiry_def Filtered_def)
  moreover have "expiry_le (filtered.until (add f r)) (filtered.until f)"
    by (simp add: until_add expiry_le_def split: option.splits)
  moreover have "whitelist_rule.until r = None \<longrightarrow> filtered.until (add f r) = filtered.until f"
    by (simp add: until_add)
  ultimately show ?thesis by blast
qed

theorem earliest_expiry_witness:
  "filtered.until (add_all (Filtered deriv deriv_vulns) [temporary_rule, rule_with_cves])
      = spec_earliest_expiry [temporary_rule, rule_with_cves]
   \<and> spec_earliest_expiry [temporary_rule, rule_with_cves] = Some (2018, 3, 5)
   \<and> expiry_le (filtered.until (add (add (Filtered deriv deriv_vulns) temporary_rule) rule_with_cves))
        (filtered.until (add (Filtered deriv deriv_vulns) temporary_rule))
   \<and> whitelist_rule.until rule_with_cves = None
   \<and> filtered.until (add (add (Filtered deriv deriv_vulns) temporary_rule) rule_with_cves)
       = filtered.until (add (Filtered deriv deriv_vulns) temporary_rule)"
proof -
  let ?f = "add (Filtered deriv deriv_vulns) temporary_rule"
  have h: "whitelist_rule.until rule_with_cves = None" by (simp add: rule_with_cves_def)
  have e: "spec_earliest_expiry [temporary_rule, rule_with_cves] = Some (2018, 3, 5)"
    by (simp add: spec_earliest_expiry_def expiry_dates_def List.map_filter_simps
        temporary_rule_def rule_with_cves_def)
  from earliest_expiry[of deriv deriv_vulns "[temporary_rule, rule_with_cves]" ?f rule_with_cves]
    h e show ?thesis by blast
qed

text \<open>
  Claim C3. Whatever rules were applied before, a rule without identifier set moves all
  of the remaining \<open>report\<close> into \<open>masked\<close> and leaves \<open>report\<close> empty.
\<close>

theorem blanket_rule_empties_active:
  assumes "distinct (map cve_id vs)" and "cve r = None"
  shows "report (add (add_all (Filtered d vs) rs) r) = []
       \<and> masked (add (add_all (Filtered d vs) rs) r)
           = masked (add_all (Filtered d vs) rs) @ report (add_all (Filtered d vs) rs)
       \<and> set (masked (add (add_all (Filtered d vs) rs) r)) = set vs"
proof -
  let ?f = "add_all (Filtered d vs) rs"
  have w0: "well_formed (Filtered d vs)" using assms(1) by (rule wf_Filtered)
  have w: "well_formed ?f" using w0 by (rule wf_add_all)
  have u: "set (report ?f) \<union> set (masked ?f) = set vs"
    using add_all_union[OF w0, of rs] by (simp add: Filtered_def)
  have r: "report (add ?f r) = []" using assms(2) by (simp add: add_report[OF w])
  have m: "masked (add ?f r) = masked ?f @ report ?f"
    using assms(2) by (simp add: add_masked[OF w])
  from r m u show ?thesis by auto
qed

theorem blanket_rule_empties_active_witness:
  "distinct (map cve_id deriv_vulns) \<and> cve unspecific_rule = None
   \<and> (report (add (add_all (Filtered deriv deriv_vulns) [rule_with_cves]) unspecific_rule) = []
      \<and> masked (add (add_all (Filtered deriv deriv_vulns) [rule_with_cves]) unspecific_rule)
          = masked (add_all (Filtered deriv deriv_vulns) [rule_with_cves])
            @ report (add_all (Filtered deriv deriv_vulns) [rule_with_cves])
      \<and> set (masked (add (add_all (Filtered deriv deriv_vulns) [rule_with_cves]) unspecific_rule))
          = set deriv_vulns)"
proof -
  have h1: "distinct (map cve_id deriv_vulns)" by (simp add: deriv_vulns_def V_def)
  have h2: "cve unspecific_rule = None" by (simp add: unspecific_rule_def)
  from h1 h2 blanket_rule_empties_active[OF h1 h2, of deriv "[rule_with_cves]"]
  show ?thesis by blast
qed

text \<open>
  Claim C4. A rule with a non-empty identifier set \<open>cs\<close> moves exactly the members of
  \<open>report\<close> whose identifier is in \<open>cs\<close>: the others stay in \<open>report\<close>, and \<open>masked\<close> keeps
  what it held and gains the moved ones.
\<close>

theorem specific_rule_moves_matching:
  assumes "distinct (map cve_id vs)" and "cve r = Some cs" and "cs \<noteq> []"
  shows "set (report (add (add_all (Filtered d vs) rs) r))
           = {v \<in> set (report (add_all (Filtered d vs) rs)). cve_id v \<notin> set cs}
       \<and> set (masked (add (add_all (Filtered d vs) rs) r))
           = set (masked (add_all (Filtered d vs) rs))
             \<union> {v \<in> set (report (add_all (Filtered d vs) rs)). cve_id v \<in> set cs}
       \<and> masked (add (add_all (Filtered d vs) rs) r)
           = masked (add_all (Filtered d vs) rs)
             @ filter (\<lambda>v. cve_id v \<in> set cs) (report (add_all (Filtered d vs) rs))"
proof -
  let ?f = "add_all (Filtered d vs) rs"
  have w0: "well_formed (Filtered d vs)" using assms(1) by (rule wf_Filtered)
  have w: "well_formed ?f" using w0 by (rule wf_add_all)
  show ?thesis using assms(2,3) by (auto simp: add_report[OF w] add_masked[OF w])
qed

theorem specific_rule_moves_matching_witness:
  "distinct (map cve_id deriv_vulns) \<and> cve rule_with_cves = Some [''CVE-2018-0001'']
   \<and> [''CVE-2018-0001''] \<noteq> []
   \<and> (set (report (add (add_all (Filtered deriv deriv_vulns) []) rule_with_cves))
           = {v \<in> set (report (add_all (Filtered deriv deriv_vulns) [])).
               cve_id v \<notin> set [''CVE-2018-0001'']}
       \<and> set (masked (add (add_all (Filtered deriv deriv_vulns) []) rule_with_cves))
           = set (masked (add_all (Filtered deriv deriv_vulns) []))
             \<union> {v \<in> set (report (add_all (Filtered deriv deriv_vulns) [])).
                  cve_id v \<in> set [''CVE-2018-0001'']}
       \<and> masked (add (add_all (Filtered deriv deriv_vulns) []) rule_with_cves)
           = masked (add_all (Filtered deriv deriv_vulns) [])
             @ filter (\<lambda>v. cve_id v \<in> set [''CVE-2018-0001''])
                 (report (add_all (Filtered deriv deriv_vulns) [])))"
proof -
  have h1: "distinct (map cve_id deriv_vulns)" by (simp add: deriv_vulns_def V_def)
  have h2: "cve rule_with_cves = Some [''CVE-2018-0001'']" by (simp add: rule_with_cves_def)
  have h3: "[''CVE-2018-0001''] \<noteq> []" by simp
  from h1 h2 h3 specific_rule_moves_matching[OF h1 h2 h3, of deriv "[]"]
  show ?thesis by blast
qed

lemma mask_all_rules: "mask_all (s\<lparr>rules := x\<rparr>) = (mask_all s)\<lparr>rules := x\<rparr>"
  by (simp add: mask_all_def)

lemma update_until_rules: "update_until u (s\<lparr>rules := x\<rparr>) = (update_until u s)\<lparr>rules := x\<rparr>"
  by (simp add: update_until_def split: option.splits)

lemma ids_foldl_set_add: "ids (foldl set_add A B) = ids A \<union> ids B"
proof (induction B arbitrary: A)
  case Nil
  show ?case by (simp add: ids_def)
next
  case (Cons b B)
  have "ids (foldl set_add (set_add A b) B) = insert (cve_id b) (ids A) \<union> ids B"
    by (simp add: Cons.IH ids_set_add)
  then show ?case by (simp add: ids_def)
qed

lemma ids_set_union: "ids (set_union A B) = ids A \<union> ids B"
  by (simp add: set_union_def ids_foldl_set_add)

lemma set_foldl_set_add: "set A \<subseteq> set (foldl set_add A B)"
proof (induction B arbitrary: A)
  case Nil
  show ?case by simp
next
  case (Cons b B)
  have "set A \<subseteq> set (set_add A b)" by (auto simp: set_add_def)
  with Cons.IH[of "set_add A b"] show ?case by auto
qed

lemma set_set_union: "set A \<subseteq> set (set_union A B)"
  by (simp add: set_union_def set_foldl_set_add)

lemma add_empty_cve:
  assumes "cve r = Some []"
  shows "add f r = (add f (r\<lparr>cve := None\<rparr>))\<lparr>rules := rules f @ [r]\<rparr>"
    and "report (add f r) = []"
    and "masked (add f r) = set_union (masked f) (report f)"
  using assms
  by (simp_all add: add_def Let_def mask_all_rules update_until_rules mask_all_def)

text \<open>
  Claim C10. A rule whose identifier set is present but empty acts as the same rule
  without identifier set: from any state \<open>f\<close> the two resulting states differ in the
  recorded rule only, \<open>report\<close> is empty, \<open>masked\<close> keeps its members and its identifiers
  are those of the old \<open>masked\<close> and the old \<open>report\<close> together; after any sequence of
  rules on a set of advisories, \<open>masked\<close> is the old \<open>masked\<close> followed by the old
  \<open>report\<close>, that is, all of the initial set.
\<close>

theorem empty_cve_set_is_blanket:
  assumes "cve r = Some []" and "distinct (map cve_id vs)"
  shows "add f r = (add f (r\<lparr>cve := None\<rparr>))\<lparr>rules := rules f @ [r]\<rparr>
       \<and> report (add f r) = []
       \<and> ids (masked (add f r)) = ids (masked f) \<union> ids (report f)
       \<and> set (masked f) \<subseteq> set (masked (add f r))
       \<and> masked (add (add_all (Filtered d vs) rs) r)
           = masked (add_all (Filtered d vs) rs) @ report (add_all (Filtered d vs) rs)
       \<and> set (masked (add (add_all (Filtered d vs) rs) r)) = set vs"
proof -
  let ?g = "add_all (Filtered d vs) rs"
  have w0: "well_formed (Filtered d vs)" using assms(2) by (rule wf_Filtered)
  have w: "well_formed ?g" using w0 by (rule wf_add_all)
  have u: "set (report ?g) \<union> set (masked ?g) = set vs"
    using add_all_union[OF w0, of rs] by (simp add: Filtered_def)
  have m: "masked (add ?g r) = masked ?g @ report ?g"
    using assms(1) by (simp add: add_masked[OF w])
  have s: "set (masked (add ?g r)) = set vs" using m u by auto
  have i: "ids (masked (add f r)) = ids (masked f) \<union> ids (report f)"
    by (simp add: add_empty_cve(3)[OF assms(1)] ids_set_union)
  have k: "set (masked f) \<subseteq> set (masked (add f r))"
    by (simp add: add_empty_cve(3)[OF assms(1)] set_set_union)
  from add_empty_cve(1,2)[OF assms(1), of f] i k m s show ?thesis by blast
qed

theorem empty_cve_set_is_blanket_witness:
  "cve empty_cve_rule = Some [] \<and> distinct (map cve_id deriv_vulns)
   \<and> add (Filtered deriv deriv_vulns) empty_cve_rule
        = (add (Filtered deriv deriv_vulns) (empty_cve_rule\<lparr>cve := None\<rparr>))
            \<lparr>rules := rules (Filtered deriv deriv_vulns) @ [empty_cve_rule]\<rparr>
   \<and> report (add (Filtered deriv deriv_vulns) empty_cve_rule) = []
   \<and> ids (masked (add (Filtered deriv deriv_vulns) empty_cve_rule))
        = ids (masked (Filtered deriv deriv_vulns)) \<union> ids (report (Filtered deriv deriv_vulns))
   \<and> masked (add (add_all (Filtered deriv deriv_vulns) [rule_with_cves]) empty_cve_rule)
        = masked (add_all (Filtered deriv deriv_vulns) [rule_with_cves])
          @ report (add_all (Filtered deriv deriv_vulns) [rule_with_cves])
   \<and> set (masked (add (add_all (Filtered deriv deriv_vulns) [rule_with_cves]) empty_cve_rule))
        = set deriv_vulns
   \<and> masked (add (add_all (Filtered deriv deriv_vulns) [rule_with_cves]) empty_cve_rule)
        = [V ''CVE-2018-0001'' None None, V ''CVE-2018-0002'' None None,
           V ''CVE-2018-0003'' (Some 9.8) None]"
proof -
  have h1: "cve empty_cve_rule = Some []" by (simp add: empty_cve_rule_def)
  have h2: "distinct (map cve_id deriv_vulns)" by (simp add: deriv_vulns_def V_def)
  note t = empty_cve_set_is_blanket[OF h1 h2, of "Filtered deriv deriv_vulns" deriv
      "[rule_with_cves]"]
  have e: "masked (add_all (Filtered deriv deriv_vulns) [rule_with_cves])
          @ report (add_all (Filtered deriv deriv_vulns) [rule_with_cves])
        = [V ''CVE-2018-0001'' None None, V ''CVE-2018-0002'' None None,
           V ''CVE-2018-0003'' (Some 9.8) None]"
    by (simp add: fixture_defs add_eval)
  from t e have "masked (add (add_all (Filtered deriv deriv_vulns) [rule_with_cves]) empty_cve_rule)
        = [V ''CVE-2018-0001'' None None, V ''CVE-2018-0002'' None None,
           V ''CVE-2018-0003'' (Some 9.8) None]" by simp
  with h1 h2 t show ?thesis by blast
qed

subsection \<open>The unit tests of \<open>Filtered\<close>\<close>

lemma test_add_rule_with_cves:
  "report (add (Filtered deriv deriv_vulns) rule_with_cves)
     = [V ''CVE-2018-0002'' None None, V ''CVE-2018-0003'' (Some 9.8) None]
   \<and> masked (add (Filtered deriv deriv_vulns) rule_with_cves) = [V ''CVE-2018-0001'' None None]"
  by (simp add: fixture_defs add_eval)

lemma test_add_unspecific_rule:
  "report (add (Filtered deriv deriv_vulns) unspecific_rule) = []"
  by (simp add: fixture_defs add_eval)

lemma test_add_temporary_whitelist:
  "filtered.until (Filtered deriv deriv_vulns) = None
   \<and> filtered.until (add (Filtered deriv deriv_vulns) temporary_rule) = Some (2018, 3, 5)"
  by (simp add: fixture_defs add_eval)

lemma distinct_deriv_vulns: "distinct (map cve_id deriv_vulns)"
  by (simp add: deriv_vulns_def V_def)

section \<open>Properties of the renderer\<close>

lemmas render_eval = output_items_def output_text_def print_def fmt_vuln_def style_cyan_def sorted_by_def
  vuln_sort_key_def written_def rstrip_def ljust_def is_space_def tenths_def str_nat.simps
  json_entry_def output_json_def json_opt_def List.map_filter_simps

lemmas item_defs = items_def wl_items_def issue_rule_def comment_rule_def masked_items_def
  deriv1_def deriv1_vulns_def
  deriv2_def deriv2_vulns_def

lemma filter_key_singleton:
  "distinct zs \<Longrightarrow> inj_on f (set zs) \<Longrightarrow> k \<in> set zs \<Longrightarrow> filter (\<lambda>x. f k = f x) zs = [k]"
proof (induction zs)
  case Nil
  then show ?case by simp
next
  case (Cons z zs)
  show ?case
  proof (cases "k = z")
    case True
    have "filter (\<lambda>x. f z = f x) zs = []"
      using Cons.prems(1,2) by (auto simp: filter_empty_conv inj_on_def)
    with True show ?thesis by simp
  next
    case False
    with Cons.prems have "k \<in> set zs" "f k \<noteq> f z"
      by (auto simp: inj_on_def)
    with Cons.IH Cons.prems show ?thesis by simp
  qed
qed

lemma sort_key_order_independent:
  assumes "distinct xs" and "inj_on f (set xs)" and "mset ys = mset xs"
  shows "sort_key f ys = sort_key f xs"
proof (rule properties_for_sort_key)
  show "mset (sort_key f xs) = mset ys" using assms(3) by simp
  show "sorted (map f (sort_key f xs))" by simp
next
  fix k assume "k \<in> set (sort_key f xs)"
  then have k: "k \<in> set xs" by simp
  have sx: "set ys = set xs" using assms(3) by (rule mset_eq_setD)
  have dy: "distinct ys" using assms(1,3) by (metis mset_eq_imp_distinct_iff)
  have "filter (\<lambda>x. f k = f x) (sort_key f xs) = [k]"
    using assms(1,2) k by (intro filter_key_singleton) simp_all
  moreover have "filter (\<lambda>x. f k = f x) ys = [k]"
    using dy assms(2) k sx by (intro filter_key_singleton) simp_all
  ultimately show "filter (\<lambda>x. f k = f x) (sort_key f xs) = filter (\<lambda>x. f k = f x) ys"
    by simp
qed

lemma vuln_sort_key_inj: "distinct (map cve_id xs) \<Longrightarrow> inj_on vuln_sort_key (set xs)"
  by (auto simp: inj_on_def vuln_sort_key_def distinct_map)

lemma vuln_sort_key_le:
  "vuln_sort_key a \<le> vuln_sort_key b \<longleftrightarrow>
     cvssv3 a > cvssv3 b \<or> (cvssv3 a = cvssv3 b \<and> cve_id a \<le> cve_id b)"
  by (auto simp: vuln_sort_key_def)

lemma sorted_by_vuln_sort_key:
  "sorted_wrt (\<lambda>a b. cvssv3 a > cvssv3 b \<or> (cvssv3 a = cvssv3 b \<and> cve_id a \<le> cve_id b))
     (sorted_by vuln_sort_key xs)"
proof -
  have "sorted (map vuln_sort_key (sorted_by vuln_sort_key xs))"
    by (simp add: sorted_by_def)
  then have "sorted_wrt (\<lambda>a b. vuln_sort_key a \<le> vuln_sort_key b) (sorted_by vuln_sort_key xs)"
    by (simp add: sorted_map)
  then show ?thesis by (simp add: vuln_sort_key_le)
qed

lemma print_lines:
  "print float_str self show_masked show_description =
     (if report self = [] \<and> \<not> show_masked then []
      else print_head (derivation self) show_description
           @ map (\<lambda>v. fmt_vuln float_str v show_description)
               (sorted_by vuln_sort_key (report self))
           @ (if show_masked
              then map (\<lambda>v. fmt_vuln float_str v show_description @ ''  [whitelisted]'')
                     (sorted_by vuln_sort_key (masked self))
              else [])
           @ print_tail (rules self))"
  by (simp add: print_def print_head_def print_tail_def Let_def)

lemma rstrip_append:
  assumes "xs \<noteq> []" and "\<not> is_space (last xs)"
  shows "rstrip (xs @ ys) = xs @ rstrip ys"
proof -
  from assms(1) obtain bs l where x: "xs = bs @ [l]"
    by (cases xs rule: rev_cases) simp_all
  with assms(2) have l: "\<not> is_space l" by simp
  have d: "dropWhile is_space (rev ys @ l # rev bs) = dropWhile is_space (rev ys) @ l # rev bs"
  proof (cases "\<forall>c \<in> set (rev ys). is_space c")
    case True
    then have "dropWhile is_space (rev ys) = []" by (simp add: dropWhile_eq_Nil_conv)
    moreover from True l have "dropWhile is_space (rev ys @ l # rev bs) = l # rev bs"
      by (simp add: dropWhile_append)
    ultimately show ?thesis by simp
  next
    case False
    with l show ?thesis by (auto simp: dropWhile_append)
  qed
  show ?thesis unfolding rstrip_def x by (simp add: d)
qed

lemma fmt_vuln_line:
  assumes "cve_id v = [] \<or> \<not> is_space (last (cve_id v))"
  shows "fmt_vuln float_str v show_description =
           ''https://nvd.nist.gov/vuln/detail/'' @ cve_id v
           @ rstrip (replicate (17 - length (cve_id v)) CHR '' '' @ '' ''
                     @ ljust 8 (if cvssv3 v \<noteq> 0 then float_str (cvssv3 v) else []) @ '' ''
                     @ (if show_description
                        then style_cyan (case description v of None \<Rightarrow> [] | Some d \<Rightarrow> d)
                        else []))"
proof -
  let ?p = "''https://nvd.nist.gov/vuln/detail/'' @ cve_id v"
  have n: "?p \<noteq> []" by simp
  have "last ?p = (if cve_id v = [] then CHR ''/'' else last (cve_id v))" by simp
  with assms have s: "\<not> is_space (last ?p)" by (auto simp: is_space_def)
  have "fmt_vuln float_str v show_description =
          rstrip (?p @ (replicate (17 - length (cve_id v)) CHR '' '' @ '' ''
                     @ ljust 8 (if cvssv3 v \<noteq> 0 then float_str (cvssv3 v) else []) @ '' ''
                     @ (if show_description
                        then style_cyan (case description v of None \<Rightarrow> [] | Some d \<Rightarrow> d)
                        else [])))"
    by (simp add: fmt_vuln_def Let_def ljust_def)
  also have "\<dots> = ?p @ rstrip (replicate (17 - length (cve_id v)) CHR '' '' @ '' ''
                     @ ljust 8 (if cvssv3 v \<noteq> 0 then float_str (cvssv3 v) else []) @ '' ''
                     @ (if show_description
                        then style_cyan (case description v of None \<Rightarrow> [] | Some d \<Rightarrow> d)
                        else []))"
    by (rule rstrip_append[OF n s])
  finally show ?thesis by simp
qed

lemma test_lines:
  "map (\<lambda>v. fmt_vuln tenths v False) (sorted_by vuln_sort_key deriv_vulns)
     = [''https://nvd.nist.gov/vuln/detail/CVE-2018-0003     9.8'',
        ''https://nvd.nist.gov/vuln/detail/CVE-2018-0001'',
        ''https://nvd.nist.gov/vuln/detail/CVE-2018-0002'']"
  by code_simp

text \<open>
  Claim C8. The advisories of one derivation are written in the order of
  \<^verbatim>\<open>sorted(..., key=vuln_sort_key)\<close>: by descending score, an absent score counting as 0,
  and among equal scores by ascending identifier. The result is a permutation of the set
  and does not depend on the order in which Python iterates over the set. \<^verbatim>\<open>print\<close>
  writes, between its heading and its closing messages, one line per active advisory in
  that order and then, when asked for, one line per suppressed advisory in that order;
  a line starts with the address and the identifier of its advisory. The three advisories
  of the test suite come out as CVE-2018-0003, CVE-2018-0001, CVE-2018-0002.
\<close>

theorem text_render_order:
  "sorted_wrt (\<lambda>a b. cvssv3 a > cvssv3 b \<or> (cvssv3 a = cvssv3 b \<and> cve_id a \<le> cve_id b))
     (sorted_by vuln_sort_key xs)
   \<and> mset (sorted_by vuln_sort_key xs) = mset xs
   \<and> (distinct (map cve_id xs) \<and> mset ys = mset xs
        \<longrightarrow> sorted_by vuln_sort_key ys = sorted_by vuln_sort_key xs)
   \<and> cvssv3 (V i None d) = 0
   \<and> print float_str self show_masked show_description =
        (if report self = [] \<and> \<not> show_masked then []
         else print_head (derivation self) show_description
              @ map (\<lambda>v. fmt_vuln float_str v show_description)
                  (sorted_by vuln_sort_key (report self))
              @ (if show_masked
                 then map (\<lambda>v. fmt_vuln float_str v show_description @ ''  [whitelisted]'')
                        (sorted_by vuln_sort_key (masked self))
                 else [])
              @ print_tail (rules self))
   \<and> (cve_id v = [] \<or> \<not> is_space (last (cve_id v)) \<longrightarrow>
        fmt_vuln float_str v show_description =
           ''https://nvd.nist.gov/vuln/detail/'' @ cve_id v
           @ rstrip (replicate (17 - length (cve_id v)) CHR '' '' @ '' ''
                     @ ljust 8 (if cvssv3 v \<noteq> 0 then float_str (cvssv3 v) else []) @ '' ''
                     @ (if show_description
                        then style_cyan (case description v of None \<Rightarrow> [] | Some t \<Rightarrow> t)
                        else [])))
   \<and> map cve_id (sorted_by vuln_sort_key
        [V ''CVE-2018-0003'' (Some 9.8) None, V ''CVE-2018-0001'' None None,
         V ''CVE-2018-0002'' None None])
      = [''CVE-2018-0003'', ''CVE-2018-0001'', ''CVE-2018-0002'']
   \<and> map (\<lambda>v. fmt_vuln tenths v False) (sorted_by vuln_sort_key deriv_vulns)
      = [''https://nvd.nist.gov/vuln/detail/CVE-2018-0003     9.8'',
         ''https://nvd.nist.gov/vuln/detail/CVE-2018-0001'',
         ''https://nvd.nist.gov/vuln/detail/CVE-2018-0002'']"
proof -
  have a: "mset (sorted_by vuln_sort_key xs) = mset xs" by (simp add: sorted_by_def)
  have b: "distinct (map cve_id xs) \<and> mset ys = mset xs
        \<longrightarrow> sorted_by vuln_sort_key ys = sorted_by vuln_sort_key xs"
  proof
    assume h: "distinct (map cve_id xs) \<and> mset ys = mset xs"
    then have "distinct xs" by (auto simp: distinct_map)
    with h show "sorted_by vuln_sort_key ys = sorted_by vuln_sort_key xs"
      unfolding sorted_by_def
      by (intro sort_key_order_independent vuln_sort_key_inj) simp_all
  qed
  have c: "cvssv3 (V i None d) = 0" by (simp add: V_def)
  have e: "map cve_id (sorted_by vuln_sort_key
        [V ''CVE-2018-0003'' (Some 9.8) None, V ''CVE-2018-0001'' None None,
         V ''CVE-2018-0002'' None None])
      = [''CVE-2018-0003'', ''CVE-2018-0001'', ''CVE-2018-0002'']"
    by (simp add: sorted_by_def vuln_sort_key_def V_def)
  from sorted_by_vuln_sort_key[of xs] a b c e test_lines
    print_lines[of float_str self show_masked show_description]
    fmt_vuln_line[of v float_str show_description]
  show ?thesis by blast
qed

theorem text_render_order_witness:
  "distinct (map cve_id deriv_vulns)
   \<and> mset [V ''CVE-2018-0003'' (Some 9.8) None, V ''CVE-2018-0001'' None None,
            V ''CVE-2018-0002'' None None] = mset deriv_vulns
   \<and> sorted_by vuln_sort_key
        [V ''CVE-2018-0003'' (Some 9.8) None, V ''CVE-2018-0001'' None None,
         V ''CVE-2018-0002'' None None]
      = sorted_by vuln_sort_key deriv_vulns
   \<and> map cve_id (sorted_by vuln_sort_key deriv_vulns)
      = [''CVE-2018-0003'', ''CVE-2018-0001'', ''CVE-2018-0002'']
   \<and> \<not> is_space (last (cve_id (V ''CVE-2018-0004'' None None)))
   \<and> fmt_vuln tenths (V ''CVE-2018-0004'' None None) False
      = ''https://nvd.nist.gov/vuln/detail/'' @ ''CVE-2018-0004''
   \<and> report (add (Filtered deriv1 deriv1_vulns) issue_rule) = [V ''CVE-2018-0005'' None None]
   \<and> masked (add (Filtered deriv1 deriv1_vulns) issue_rule) = [V ''CVE-2018-0004'' None None]
   \<and> print tenths (add (Filtered deriv1 deriv1_vulns) issue_rule) True False
      = print_head deriv1 False
        @ [''https://nvd.nist.gov/vuln/detail/CVE-2018-0005'']
        @ [''https://nvd.nist.gov/vuln/detail/CVE-2018-0004  [whitelisted]'']
        @ print_tail [issue_rule]"
proof -
  let ?ys = "[V ''CVE-2018-0003'' (Some 9.8) None, V ''CVE-2018-0001'' None None,
              V ''CVE-2018-0002'' None None]"
  let ?s = "add (Filtered deriv1 deriv1_vulns) issue_rule"
  let ?v = "V ''CVE-2018-0004'' None None"
  note t = text_render_order[of deriv_vulns ?ys undefined None tenths ?s True False ?v]
  have h1: "distinct (map cve_id deriv_vulns)" by (simp add: deriv_vulns_def V_def)
  have h2: "mset ?ys = mset deriv_vulns" by (simp add: deriv_vulns_def)
  have h3: "\<not> is_space (last (cve_id ?v))" by (simp add: V_def is_space_def)
  have r: "report ?s = [V ''CVE-2018-0005'' None None]"
    and m: "masked ?s = [V ''CVE-2018-0004'' None None]"
    and dr: "derivation ?s = deriv1" and ru: "rules ?s = [issue_rule]"
    by (simp_all add: issue_rule_def deriv1_vulns_def V_def add_eval)
  have e: "sorted_by vuln_sort_key ?ys = sorted_by vuln_sort_key deriv_vulns"
    using t h1 h2 by blast
  have k: "map cve_id (sorted_by vuln_sort_key deriv_vulns)
      = [''CVE-2018-0003'', ''CVE-2018-0001'', ''CVE-2018-0002'']"
    using t e by simp
  from t h3 have "fmt_vuln tenths ?v False
      = ''https://nvd.nist.gov/vuln/detail/'' @ cve_id ?v
           @ rstrip (replicate (17 - length (cve_id ?v)) CHR '' '' @ '' ''
                     @ ljust 8 (if cvssv3 ?v \<noteq> 0 then tenths (cvssv3 ?v) else []) @ '' ''
                     @ (if False
                        then style_cyan (case description ?v of None \<Rightarrow> [] | Some t \<Rightarrow> t)
                        else []))" by blast
  then have f: "fmt_vuln tenths ?v False = ''https://nvd.nist.gov/vuln/detail/'' @ ''CVE-2018-0004''"
    by (simp add: V_def rstrip_def ljust_def is_space_def)
  have l5: "fmt_vuln tenths (V ''CVE-2018-0005'' None None) False
      = ''https://nvd.nist.gov/vuln/detail/CVE-2018-0005''"
    by code_simp
  from t have "print tenths ?s True False =
        (if report ?s = [] \<and> \<not> True then []
         else print_head (derivation ?s) False
              @ map (\<lambda>v. fmt_vuln tenths v False) (sorted_by vuln_sort_key (report ?s))
              @ (if True
                 then map (\<lambda>v. fmt_vuln tenths v False @ ''  [whitelisted]'')
                        (sorted_by vuln_sort_key (masked ?s))
                 else [])
              @ print_tail (rules ?s))" by blast
  then have p: "print tenths ?s True False
      = print_head deriv1 False
        @ [''https://nvd.nist.gov/vuln/detail/CVE-2018-0005'']
        @ [''https://nvd.nist.gov/vuln/detail/CVE-2018-0004  [whitelisted]'']
        @ print_tail [issue_rule]"
    using f l5 by (simp add: r m dr ru sorted_by_def)
  from h1 h2 h3 e k f r m p show ?thesis by blast
qed

text \<open>
  Claim C2. The exit code of \<^verbatim>\<open>output\<close> is 2 if some item has a non-empty \<open>report\<close>;
  otherwise 1 if whitelisted items were asked for and some item has a non-empty \<open>masked\<close>;
  otherwise 0. It depends neither on the output format nor on the description flag.
\<close>

theorem exit_code:
  "snd (output_items float_str vulns json_dump show_whitelisted show_description) =
     (if \<exists>i \<in> set vulns. report i \<noteq> [] then 2
      else if show_whitelisted \<and> (\<exists>i \<in> set vulns. masked i \<noteq> []) then 1
      else 0)"
  by (simp add: output_items_def Let_def list_ex_iff)

theorem exit_code_witness:
  "snd (output_items tenths items False False False) = 2
   \<and> snd (output_items tenths masked_items False False False) = 0
   \<and> snd (output_items tenths masked_items False True False) = 1
   \<and> snd (output_items tenths [] True False False) = 0"
proof -
  have a: "\<exists>i\<in>set items. report i \<noteq> []"
    by (simp add: item_defs Filtered_def deriv_vulns_def)
  have b: "\<not> (\<exists>i\<in>set masked_items. report i \<noteq> [])"
    by (simp add: item_defs fixture_defs add_eval)
  have c: "\<exists>i\<in>set masked_items. masked i \<noteq> []"
    by (simp add: item_defs fixture_defs add_eval)
  have "snd (output_items tenths items False False False) = 2"
    using exit_code[of tenths items False False False] a by simp
  moreover have "snd (output_items tenths masked_items False False False) = 0"
    using exit_code[of tenths masked_items False False False] b by simp
  moreover have "snd (output_items tenths masked_items False True False) = 1"
    using exit_code[of tenths masked_items False True False] b c by simp
  moreover have "snd (output_items tenths [] True False False) = 0"
    using exit_code[of tenths "[]" True False False] by simp
  ultimately show ?thesis by blast
qed





lemma test_output_text:
  "written (output_text tenths wl_items True False) = concat (map (\<lambda>l. l @ [CHR 0x0A])
    [''2 derivations with active advisories'',
     [],
     ''------------------------------------------------------------------------'',
     ''foo-1'',
     [],
     ''CVE                                                CVSSv3'',
     ''https://nvd.nist.gov/vuln/detail/CVE-2018-0005'',
     ''https://nvd.nist.gov/vuln/detail/CVE-2018-0004  [whitelisted]'',
     [],
     ''Issue(s):'',
     ''https://tracker/4'',
     [],
     ''------------------------------------------------------------------------'',
     ''test-0.2'',
     [],
     ''/nix/store/zsawgflc1fq77ijjzb1369zi6kxnc36j-test-0.2'',
     ''CVE                                                CVSSv3'',
     ''https://nvd.nist.gov/vuln/detail/CVE-2018-0003     9.8'',
     ''https://nvd.nist.gov/vuln/detail/CVE-2018-0001'',
     ''https://nvd.nist.gov/vuln/detail/CVE-2018-0002'',
     [],
     ''------------------------------------------------------------------------'',
     ''bar-2'',
     [],
     ''CVE                                                CVSSv3'',
     ''https://nvd.nist.gov/vuln/detail/CVE-2018-0006     5.0  [whitelisted]'',
     [],
     ''Comment:'',
     ''* irrelevant''])"
  by code_simp

text \<open>
  The structured output of the test suite; its lists of identifiers are sorted by identifier.
\<close>

lemma test_output_json:
  "output_json wl_items False =
     JList
      [JDict
        [(''name'', JStr ''foo-1''), (''pname'', JStr ''foo''), (''version'', JStr ''1''),
         (''derivation'', JNull),
         (''affected_by'', JList [JStr ''CVE-2018-0005'']),
         (''whitelisted'', JList [JStr ''CVE-2018-0004'']),
         (''cvssv3_basescore'', JDict []), (''description'', JDict [])],
       JDict
        [(''name'', JStr ''test-0.2''), (''pname'', JStr ''test''), (''version'', JStr ''0.2''),
         (''derivation'', JStr ''/nix/store/zsawgflc1fq77ijjzb1369zi6kxnc36j-test-0.2''),
         (''affected_by'',
            JList [JStr ''CVE-2018-0001'', JStr ''CVE-2018-0002'', JStr ''CVE-2018-0003'']),
         (''whitelisted'', JList []),
         (''cvssv3_basescore'', JDict [(''CVE-2018-0003'', JNum 9.8)]),
         (''description'', JDict [])]]"
  by (simp add: render_eval item_defs fixture_defs add_eval)

section \<open>Properties of the resolution engine\<close>

lemma bind_simps [simp]:
  "bind (Inl e) f = Inl e"
  "bind (Inr x) f = f x"
  by (simp_all add: bind_def)

lemma bind_cong_right: "(\<And>x. m = Inr x \<Longrightarrow> f x = g x) \<Longrightarrow> bind m f = bind m g"
  by (cases m) simp_all

lemma bind_assoc: "bind (bind m f) g = bind m (\<lambda>x. bind (f x) g)"
  by (cases m) simp_all

subsection \<open>Runs in the small store\<close>

lemmas store_eval = map_world_def list_world_def Store_def probe_def call_nix_def find_deriver_def
  first_key_def deriver_error_def update_def derivations_add_def find_outputs_def
  add_path_output_def add_path_data_def add_path_def add_element_def add_manifest_def
  add_profile_def py_get_def py_index_def py_iter_def py_values_def p_join_def endswith_def
  strip_def lstrip_def rstrip_def is_space_def splitlines_def is_linebreak_def split_def
  Let_def

lemma closure_run:
  "add_path map_world (Store True True) ''/nix/store/abc-foo-1''
     = Inr ((Store True True)\<lparr>derivations := [deriv1], experimental_flag_needed := Some False\<rparr>)"
  by (simp add: store_eval)

lemma profile_run:
  "add_profile list_world (Store True True) ''/profile''
     = Inr ((Store True True)\<lparr>derivations := [deriv1], experimental_flag_needed := Some False\<rparr>)"
  by (simp add: store_eval)

subsection \<open>Deriver resolution\<close>

lemma find_deriver_falsy:
  "\<not> truthy path \<or> \<not> truthy qpi_deriver \<Longrightarrow>
   find_deriver w st path qpi_deriver = Inr (None, st)"
  by (simp add: find_deriver_def)

lemma find_deriver_Some:
  assumes "truthy path" and "truthy qpi_deriver"
    and "find_deriver w st path qpi_deriver = Inr (r, st')"
  shows "\<exists>d. r = Some d \<and> (path = JStr d \<and> endswith d ''.drv'' \<or> path_exists w d)"
  using assms
  by (auto simp: find_deriver_def bind_def
      split: if_splits json.splits sum.splits prod.splits)

text \<open>
  Counterexample to C7 as it is stated: for a path of the closure without deriver in its
  metadata, and for an empty path, no candidate can be determined and the result is
  \<open>None\<close>, not an error.
\<close>

theorem find_deriver_none_counterexample:
  "\<not> truthy JNull
   \<and> find_deriver map_world (Store True True) (JStr ''/nix/store/lib-baz'') JNull
       = Inr (None, Store True True)
   \<and> \<not> truthy (JStr [])
   \<and> find_deriver map_world (Store True False) (JStr []) (JStr ''undef'')
       = Inr (None, Store True False)"
  by (simp add: find_deriver_def)

lemma update_None: "update w st None = Inr st"
  by (simp add: update_def)

lemma add_path_dict_skip:
  assumes "py_get info ''deriver'' = Inr drv" and "outpath = [] \<or> \<not> truthy drv"
  shows "add_path_dict w st ((outpath, info) # rest) = add_path_dict w st rest"
  using assms by (auto simp: find_deriver_def update_def)

lemma add_path_list_skip:
  assumes "py_get info ''path'' = Inr outpath" and "py_get info ''deriver'' = Inr drv"
    and "\<not> truthy outpath \<or> \<not> truthy drv"
  shows "add_path_list w st (info # rest) = add_path_list w st rest"
  using assms by (auto simp: find_deriver_def update_def)

lemma find_deriver_unresolved:
  assumes "p \<noteq> []" and "\<not> endswith p ''.drv''" and "q0 \<noteq> []"
    and "q0 = ''undef'' \<longrightarrow> call w [''nix-store'', ''-qd'', p] = Inr out \<and> q = strip out"
    and "q0 \<noteq> ''undef'' \<longrightarrow> q = q0"
    and "q = [] \<or> q = ''unknown-deriver'' \<or> \<not> path_exists w q"
    and "call_nix w st [''show-derivation'', p] = Inr (tx, st1)"
    and "json_loads w tx = Inr (JDict kvs)"
  shows "find_deriver w st (JStr p) (JStr q0) =
     (case kvs of
        [] \<Rightarrow> Inl IndexError
      | kv # rest \<Rightarrow>
          if fst kv \<noteq> [] \<and> path_exists w (fst kv) then Inr (Some (fst kv), st1)
          else if (q = [] \<or> q = ''unknown-deriver'') \<and> (fst kv = [] \<or> fst kv = q)
          then Inl (RuntimeError
                 [''Cannot determine deriver. Is this really a path into the nix store?'', p])
          else Inl (RuntimeError
                 [(if q \<noteq> [] \<and> q \<noteq> ''unknown-deriver''
                   then ''Deriver `'' @ q @ ''` does not exist.  '' else [])
                  @ (if fst kv \<noteq> [] \<and> fst kv \<noteq> q
                     then ''Deriver `'' @ fst kv @ ''` does not exist.  '' else [])
                  @ ''Couldn't find deriver for path `'' @ p @ ''`'']))"
proof (cases "q0 = ''undef''")
  case True
  with assms(4) have c: "call w [''nix-store'', ''-qd'', p] = Inr out" and q: "q = strip out"
    by simp_all
  show ?thesis
    using assms(1,2,6,7,8) True c q
    by (cases kvs) (auto simp: find_deriver_def first_key_def deriver_error_def Let_def)
next
  case False
  with assms(5) have q: "q = q0" by simp
  show ?thesis
    using assms(1,2,3,6,7,8) False q
    by (cases kvs) (auto simp: find_deriver_def first_key_def deriver_error_def Let_def)
qed

text \<open>
  Claim C7, as amended. \<^verbatim>\<open>_find_deriver\<close> returns \<open>None\<close> when the path or the deriver handed
  in is empty or absent, without looking for another candidate, and the caller goes on:
  \<^verbatim>\<open>update(None)\<close> leaves the store as it is, and both loops of \<^verbatim>\<open>add_path\<close> pass to the
  next record. When both are given it never returns \<open>None\<close>: a result is the path itself,
  a recipe path, or a candidate that exists on disk. When the path is no recipe path and
  the deriver (handed in, or queried when the default stands in its place) is empty, the
  unknown sentinel or not on disk, the description is read: an empty description ends in
  \<open>IndexError\<close>; a first key that exists on disk is the result; otherwise the run ends in a
  \<open>RuntimeError\<close>, "Cannot determine deriver" when the deriver is empty or the sentinel
  and the key is empty or equal to it, and else a message naming each candidate that
  does not exist.
\<close>

theorem find_deriver_outcomes:
  "(\<not> truthy path1 \<or> \<not> truthy qpi1 \<longrightarrow> find_deriver w st path1 qpi1 = Inr (None, st))
   \<and> update w st None = Inr st
   \<and> (py_get info5 ''deriver'' = Inr drv5 \<and> (outpath5 = [] \<or> \<not> truthy drv5)
        \<longrightarrow> add_path_dict w st ((outpath5, info5) # rest5) = add_path_dict w st rest5)
   \<and> (py_get info6 ''path'' = Inr outpath6 \<and> py_get info6 ''deriver'' = Inr drv6
        \<and> (\<not> truthy outpath6 \<or> \<not> truthy drv6)
        \<longrightarrow> add_path_list w st (info6 # rest6) = add_path_list w st rest6)
   \<and> (truthy path2 \<and> truthy qpi2 \<and> find_deriver w st path2 qpi2 = Inr (r, st2)
        \<longrightarrow> (\<exists>d. r = Some d \<and> (path2 = JStr d \<and> endswith d ''.drv'' \<or> path_exists w d)))
   \<and> (p \<noteq> [] \<and> \<not> endswith p ''.drv'' \<and> q0 \<noteq> []
        \<and> (q0 = ''undef'' \<longrightarrow> call w [''nix-store'', ''-qd'', p] = Inr out \<and> q = strip out)
        \<and> (q0 \<noteq> ''undef'' \<longrightarrow> q = q0)
        \<and> (q = [] \<or> q = ''unknown-deriver'' \<or> \<not> path_exists w q)
        \<and> call_nix w st [''show-derivation'', p] = Inr (tx, st1)
        \<and> json_loads w tx = Inr (JDict kvs)
        \<longrightarrow> find_deriver w st (JStr p) (JStr q0) =
             (case kvs of
                [] \<Rightarrow> Inl IndexError
              | kv # rest \<Rightarrow>
                  if fst kv \<noteq> [] \<and> path_exists w (fst kv) then Inr (Some (fst kv), st1)
                  else if (q = [] \<or> q = ''unknown-deriver'') \<and> (fst kv = [] \<or> fst kv = q)
                  then Inl (RuntimeError
                         [''Cannot determine deriver. Is this really a path into the nix store?'',
                          p])
                  else Inl (RuntimeError
                         [(if q \<noteq> [] \<and> q \<noteq> ''unknown-deriver''
                           then ''Deriver `'' @ q @ ''` does not exist.  '' else [])
                          @ (if fst kv \<noteq> [] \<and> fst kv \<noteq> q
                             then ''Deriver `'' @ fst kv @ ''` does not exist.  '' else [])
                          @ ''Couldn't find deriver for path `'' @ p @ ''`''])))"
  using find_deriver_falsy[of path1 qpi1 w st]
    update_None[of w st]
    add_path_dict_skip[of info5 drv5 outpath5 w st rest5]
    add_path_list_skip[of info6 outpath6 drv6 w st rest6]
    find_deriver_Some[of path2 qpi2 w st r st2]
    find_deriver_unresolved[where p=p and ?q0.0=q0 and w=w and out=out and q=q and tx=tx and st=st and ?st1.0=st1 and kvs=kvs]
  by blast

theorem find_deriver_outcomes_witness:
  "\<not> truthy JNull
   \<and> find_deriver map_world (Store True True) (JStr ''/nix/store/lib-baz'') JNull
       = Inr (None, Store True True)
   \<and> update map_world (Store True True) None = Inr (Store True True)
   \<and> py_get (JDict [(''narSize'', JNum 1)]) ''deriver'' = Inr JNull
   \<and> add_path_dict map_world (Store True True)
         ((''/nix/store/lib-baz'', JDict [(''narSize'', JNum 1)]) # [])
       = add_path_dict map_world (Store True True) []
   \<and> py_get (JDict [(''path'', JStr ''/nix/store/lib-baz''), (''narSize'', JNum 1)]) ''path''
       = Inr (JStr ''/nix/store/lib-baz'')
   \<and> py_get (JDict [(''path'', JStr ''/nix/store/lib-baz''), (''narSize'', JNum 1)]) ''deriver''
       = Inr JNull
   \<and> add_path_list map_world (Store True True)
         (JDict [(''path'', JStr ''/nix/store/lib-baz''), (''narSize'', JNum 1)] # [])
       = add_path_list map_world (Store True True) []
   \<and> truthy (JStr ''/nix/store/abc-foo-1'') \<and> truthy (JStr ''/nix/store/abc-foo-1.drv'')
   \<and> find_deriver map_world (Store True True) (JStr ''/nix/store/abc-foo-1'')
         (JStr ''/nix/store/abc-foo-1.drv'')
       = Inr (Some ''/nix/store/abc-foo-1.drv'', Store True True)
   \<and> path_exists map_world ''/nix/store/abc-foo-1.drv''
   \<and> call map_world [''nix-store'', ''-qd'', ''/nix/store/xyz-bar-2'']
       = Inr (''unknown-deriver'' @ [CHR 0x0A])
   \<and> strip (''unknown-deriver'' @ [CHR 0x0A]) = ''unknown-deriver''
   \<and> call_nix map_world (Store True True) [''show-derivation'', ''/nix/store/xyz-bar-2'']
       = Inr (''no recipe'', (Store True True)\<lparr>experimental_flag_needed := Some False\<rparr>)
   \<and> json_loads map_world ''no recipe'' = Inr (JDict [([], JDict [])])
   \<and> find_deriver map_world (Store True True) (JStr ''/nix/store/xyz-bar-2'') (JStr ''undef'')
       = Inl (RuntimeError
                [''Cannot determine deriver. Is this really a path into the nix store?'',
                 ''/nix/store/xyz-bar-2''])
   \<and> json_loads map_world ''empty description'' = Inr (JDict [])
   \<and> find_deriver map_world (Store True True) (JStr ''/nix/store/src-tarball'') (JStr ''undef'')
       = Inl IndexError
   \<and> find_deriver map_world (Store True True) (JStr ''/nix/store/old-qux'') (JStr ''undef'')
       = Inl (RuntimeError
                [''Deriver `/nix/store/gone-qux.drv` does not exist.  ''
                 @ ''Deriver `/nix/store/stale-qux.drv` does not exist.  ''
                 @ ''Couldn't find deriver for path `/nix/store/old-qux`''])
   \<and> find_deriver map_world (Store True True) (JStr ''/nix/store/old-qux'')
         (JStr ''/nix/store/gone-qux.drv'')
       = Inl (RuntimeError
                [''Deriver `/nix/store/gone-qux.drv` does not exist.  ''
                 @ ''Deriver `/nix/store/stale-qux.drv` does not exist.  ''
                 @ ''Couldn't find deriver for path `/nix/store/old-qux`''])"
proof -
  let ?st = "Store True True"
  let ?st1 = "(Store True True)\<lparr>experimental_flag_needed := Some False\<rparr>"
  let ?dinfo = "JDict [(''narSize'', JNum 1)]"
  let ?linfo = "JDict [(''path'', JStr ''/nix/store/lib-baz''), (''narSize'', JNum 1)]"
  note t1 = find_deriver_outcomes[where ?path1.0 = "JStr ''/nix/store/lib-baz''"
      and ?qpi1.0 = JNull and w = map_world and st = ?st
      and ?info5.0 = ?dinfo and ?drv5.0 = JNull and ?outpath5.0 = "''/nix/store/lib-baz''"
      and ?rest5.0 = "[]"
      and ?info6.0 = ?linfo and ?outpath6.0 = "JStr ''/nix/store/lib-baz''"
      and ?drv6.0 = JNull and ?rest6.0 = "[]"
      and ?path2.0 = "JStr ''/nix/store/abc-foo-1''"
      and ?qpi2.0 = "JStr ''/nix/store/abc-foo-1.drv''"
      and r = "Some ''/nix/store/abc-foo-1.drv''" and ?st2.0 = ?st
      and p = "''/nix/store/xyz-bar-2''" and ?q0.0 = "''undef''"
      and out = "''unknown-deriver'' @ [CHR 0x0A]" and q = "''unknown-deriver''"
      and tx = "''no recipe''" and ?st1.0 = ?st1 and kvs = "[([], JDict [])]"]
  note t2 = find_deriver_outcomes[where w = map_world and st = ?st
      and p = "''/nix/store/src-tarball''" and ?q0.0 = "''undef''"
      and out = "''unknown-deriver'' @ [CHR 0x0A]" and q = "''unknown-deriver''"
      and tx = "''empty description''" and ?st1.0 = ?st1 and kvs = "[]"]
  note t3 = find_deriver_outcomes[where w = map_world and st = ?st
      and p = "''/nix/store/old-qux''" and ?q0.0 = "''undef''"
      and out = "''/nix/store/gone-qux.drv'' @ [CHR 0x0A]" and q = "''/nix/store/gone-qux.drv''"
      and tx = "''stale recipe''" and ?st1.0 = ?st1
      and kvs = "[(''/nix/store/stale-qux.drv'', JDict [])]"]
  note t4 = find_deriver_outcomes[where w = map_world and st = ?st
      and p = "''/nix/store/old-qux''" and ?q0.0 = "''/nix/store/gone-qux.drv''"
      and out = "[]" and q = "''/nix/store/gone-qux.drv''"
      and tx = "''stale recipe''" and ?st1.0 = ?st1
      and kvs = "[(''/nix/store/stale-qux.drv'', JDict [])]"]
  have a1: "\<not> truthy JNull" by simp
  have g5: "py_get ?dinfo ''deriver'' = Inr JNull" by (simp add: py_get_def)
  have g6: "py_get ?linfo ''path'' = Inr (JStr ''/nix/store/lib-baz'')"
    "py_get ?linfo ''deriver'' = Inr JNull" by (simp_all add: py_get_def)
  have b1: "truthy (JStr ''/nix/store/abc-foo-1'')" "truthy (JStr ''/nix/store/abc-foo-1.drv'')"
    by simp_all
  have b2: "find_deriver map_world ?st (JStr ''/nix/store/abc-foo-1'')
              (JStr ''/nix/store/abc-foo-1.drv'') = Inr (Some ''/nix/store/abc-foo-1.drv'', ?st)"
    by (simp add: store_eval)
  have ex: "path_exists map_world ''/nix/store/abc-foo-1.drv''"
    "\<not> path_exists map_world ''/nix/store/gone-qux.drv''"
    "\<not> path_exists map_world ''/nix/store/stale-qux.drv''"
    by (simp_all add: map_world_def)
  have nd: "''/nix/store/xyz-bar-2'' \<noteq> []" "\<not> endswith ''/nix/store/xyz-bar-2'' ''.drv''"
    "''/nix/store/src-tarball'' \<noteq> []" "\<not> endswith ''/nix/store/src-tarball'' ''.drv''"
    "''/nix/store/old-qux'' \<noteq> []" "\<not> endswith ''/nix/store/old-qux'' ''.drv''"
    by (simp_all add: endswith_def)
  have c: "call map_world [''nix-store'', ''-qd'', ''/nix/store/xyz-bar-2'']
             = Inr (''unknown-deriver'' @ [CHR 0x0A])"
    "call map_world [''nix-store'', ''-qd'', ''/nix/store/src-tarball'']
             = Inr (''unknown-deriver'' @ [CHR 0x0A])"
    "call map_world [''nix-store'', ''-qd'', ''/nix/store/old-qux'']
             = Inr (''/nix/store/gone-qux.drv'' @ [CHR 0x0A])"
    by (simp_all add: map_world_def)
  have s: "strip (''unknown-deriver'' @ [CHR 0x0A]) = ''unknown-deriver''"
    "strip (''/nix/store/gone-qux.drv'' @ [CHR 0x0A]) = ''/nix/store/gone-qux.drv''"
    by (simp_all add: strip_def lstrip_def rstrip_def is_space_def)
  have n: "call_nix map_world ?st [''show-derivation'', ''/nix/store/xyz-bar-2'']
             = Inr (''no recipe'', ?st1)"
    "call_nix map_world ?st [''show-derivation'', ''/nix/store/src-tarball'']
             = Inr (''empty description'', ?st1)"
    "call_nix map_world ?st [''show-derivation'', ''/nix/store/old-qux'']
             = Inr (''stale recipe'', ?st1)"
    by (simp_all add: store_eval)
  have j: "json_loads map_world ''no recipe'' = Inr (JDict [([], JDict [])])"
    "json_loads map_world ''empty description'' = Inr (JDict [])"
    "json_loads map_world ''stale recipe'' = Inr (JDict [(''/nix/store/stale-qux.drv'', JDict [])])"
    by (simp_all add: map_world_def)
  from t1 a1 have r1: "find_deriver map_world ?st (JStr ''/nix/store/lib-baz'') JNull
       = Inr (None, ?st)" by blast
  from t1 have r2: "update map_world ?st None = Inr ?st" by blast
  from t1 g5 a1 have r5: "add_path_dict map_world ?st ((''/nix/store/lib-baz'', ?dinfo) # [])
       = add_path_dict map_world ?st []" by blast
  from t1 g6 a1 have r6: "add_path_list map_world ?st (?linfo # [])
       = add_path_list map_world ?st []" by blast
  from t1 nd(1,2) c(1) s(1) n(1) j(1)
  have e1: "find_deriver map_world ?st (JStr ''/nix/store/xyz-bar-2'') (JStr ''undef'')
       = Inl (RuntimeError
                [''Cannot determine deriver. Is this really a path into the nix store?'',
                 ''/nix/store/xyz-bar-2''])" by simp
  from t2 nd(3,4) c(2) s(1) n(2) j(2)
  have e2: "find_deriver map_world ?st (JStr ''/nix/store/src-tarball'') (JStr ''undef'')
       = Inl IndexError" by simp
  from t3 nd(5,6) c(3) s(2) n(3) j(3) ex(2,3)
  have e3: "find_deriver map_world ?st (JStr ''/nix/store/old-qux'') (JStr ''undef'')
       = Inl (RuntimeError
                [''Deriver `/nix/store/gone-qux.drv` does not exist.  ''
                 @ ''Deriver `/nix/store/stale-qux.drv` does not exist.  ''
                 @ ''Couldn't find deriver for path `/nix/store/old-qux`''])" by simp
  from t4 nd(5,6) n(3) j(3) ex(2,3)
  have e4: "find_deriver map_world ?st (JStr ''/nix/store/old-qux'')
         (JStr ''/nix/store/gone-qux.drv'')
       = Inl (RuntimeError
                [''Deriver `/nix/store/gone-qux.drv` does not exist.  ''
                 @ ''Deriver `/nix/store/stale-qux.drv` does not exist.  ''
                 @ ''Couldn't find deriver for path `/nix/store/old-qux`''])" by simp
  from a1 r1 r2 g5 r5 g6 r6 b1 b2 ex(1) c(1) s(1) n(1) j(1) e1 j(2) e2 e3 e4
  show ?thesis by blast
qed

subsection \<open>Mapping-shaped and list-shaped input\<close>

lemma variants_call:
  "variants w w' \<Longrightarrow> \<not> path_info_args argv \<Longrightarrow> call w' argv = call w argv"
  unfolding variants_def by blast

lemma probe_variants:
  assumes "variants w w'"
  shows "probe w' st = probe w st"
proof -
  have h: "call w' [''nix'', ''--help''] = call w [''nix'', ''--help'']"
    using assms by (rule variants_call) (simp add: path_info_args_def)
  show ?thesis unfolding probe_def h ..
qed

lemma call_nix_variants:
  assumes "variants w w'"
    and "\<not> path_info_args ([''nix''] @ args)"
    and "\<not> path_info_args ([''nix'', ''--experimental-features'', ''nix-command flakes''] @ args)"
  shows "call_nix w' st args = call_nix w st args"
proof -
  have a: "call w' ([''nix''] @ args) = call w ([''nix''] @ args)"
    using assms(1,2) by (rule variants_call)
  have b: "call w' ([''nix'', ''--experimental-features'', ''nix-command flakes''] @ args)
         = call w ([''nix'', ''--experimental-features'', ''nix-command flakes''] @ args)"
    using assms(1,3) by (rule variants_call)
  show ?thesis unfolding call_nix_def probe_variants[OF assms(1)] a b ..
qed

lemma show_derivation_variants:
  "variants w w' \<Longrightarrow> call_nix w' st [''show-derivation'', p] = call_nix w st [''show-derivation'', p]"
  by (rule call_nix_variants) (simp_all add: path_info_args_def)

lemma find_deriver_variants:
  assumes "variants w w'"
  shows "find_deriver w' st path qpi = find_deriver w st path qpi"
proof -
  have e: "path_exists w' = path_exists w" and j: "json_loads w' = json_loads w"
    using assms by (simp_all add: variants_def)
  have c: "\<And>p. call w' [''nix-store'', ''-qd'', p] = call w [''nix-store'', ''-qd'', p]"
    using assms by (rule variants_call) (simp add: path_info_args_def)
  show ?thesis
    unfolding find_deriver_def e j c show_derivation_variants[OF assms] ..
qed

lemma update_variants:
  assumes "variants w w'"
  shows "update w' st d = update w st d"
proof -
  have l: "load w' = load w" using assms by (simp add: variants_def)
  show ?thesis unfolding update_def l ..
qed

lemma update_each_variants: "variants w w' \<Longrightarrow> update_each w' st cs = update_each w st cs"
  by (induction cs arbitrary: st) (simp_all add: update_variants)

lemma find_outputs_variants:
  assumes "variants w w'"
  shows "find_outputs w' st p = find_outputs w st p"
proof -
  have j: "json_loads w' = json_loads w" using assms by (simp add: variants_def)
  show ?thesis unfolding find_outputs_def j show_derivation_variants[OF assms] ..
qed

lemma add_path_dict_variants:
  "variants w w' \<Longrightarrow> add_path_dict w' st kvs = add_path_dict w st kvs"
proof (induction kvs arbitrary: st)
  case Nil
  then show ?case by simp
next
  case (Cons kv kvs)
  obtain outpath info where kv: "kv = (outpath, info)" by (cases kv)
  show ?case
    unfolding kv add_path_dict.simps find_deriver_variants[OF Cons.prems]
      update_variants[OF Cons.prems] Cons.IH[OF Cons.prems] ..
qed

lemma add_path_list_variants:
  "variants w w' \<Longrightarrow> add_path_list w' st infos = add_path_list w st infos"
proof (induction infos arbitrary: st)
  case Nil
  then show ?case by simp
next
  case (Cons info infos)
  show ?case
    unfolding add_path_list.simps find_deriver_variants[OF Cons.prems]
      update_variants[OF Cons.prems] Cons.IH[OF Cons.prems] ..
qed

lemma add_path_dict_list:
  "same_records kvs infos \<Longrightarrow> add_path_dict w st kvs = add_path_list w st infos"
  unfolding same_records_def
proof (induction kvs infos arbitrary: st rule: list_all2_induct)
  case Nil
  then show ?case by simp
next
  case (Cons kv kvs info infos)
  obtain outpath i where kv: "kv = (outpath, i)" by (cases kv)
  from Cons.hyps(1) kv have p: "py_get info ''path'' = Inr (JStr outpath)"
    and d: "py_get info ''deriver'' = py_get i ''deriver''" by simp_all
  show ?case
    unfolding kv add_path_dict.simps add_path_list.simps p d
    by (simp add: Cons.IH)
qed

lemma call_nix_bind:
  "bind (call_nix w st args) F =
     bind (probe w st)
       (\<lambda>st1.
          bind (if experimental_flag_needed st1 = Some True
                then call w ([''nix'', ''--experimental-features'', ''nix-command flakes''] @ args)
                else call w ([''nix''] @ args))
            (\<lambda>out. F (out, st1)))"
  unfolding call_nix_def by (simp add: bind_assoc)

lemma same_records_Nil: "same_records kvs infos \<Longrightarrow> (infos = []) = (kvs = [])"
  unfolding same_records_def by (auto dest: list_all2_lengthD)

lemma add_path_data_variants:
  "variants w w' \<Longrightarrow> add_path_data w' st a = add_path_data w st a"
  unfolding add_path_data_def
  by (cases a) (simp_all add: add_path_dict_variants add_path_list_variants)

lemma add_path_data_variant:
  assumes "variants w w'" and "path_info_variant a b"
  shows "add_path_data w' st b = add_path_data w st a"
proof -
  from assms(2) obtain kvs infos where a: "a = JDict kvs" and b: "b = JList infos"
    and r: "same_records kvs infos"
    by (auto simp: path_info_variant_def split: json.splits)
  show ?thesis
    unfolding a b add_path_data_def
    using same_records_Nil[OF r]
    by (simp add: add_path_list_variants[OF assms(1)] add_path_dict_list[OF r])
qed

lemma path_info_call:
  assumes "variants w w'" and "path_info_args argv"
  shows "bind (call w' argv) (\<lambda>out. bind (json_loads w' out) (add_path_data w' st1))
       = bind (call w argv) (\<lambda>out. bind (json_loads w out) (add_path_data w st1))"
proof -
  have j: "json_loads w' = json_loads w" using assms(1) by (simp add: variants_def)
  have d: "add_path_data w' st1 = add_path_data w st1"
    by (rule ext) (rule add_path_data_variants[OF assms(1)])
  from assms(1) have "call w' argv = call w argv
      \<or> text_variant w path_info_variant (call w argv) (call w' argv)"
    unfolding variants_def by blast
  then show ?thesis
  proof
    assume "call w' argv = call w argv"
    then show ?thesis by (simp add: j d)
  next
    assume "text_variant w path_info_variant (call w argv) (call w' argv)"
    then obtain t t' a b where "call w argv = Inr t" "call w' argv = Inr t'"
      "json_loads w t = Inr a" "json_loads w t' = Inr b" "path_info_variant a b"
      by (auto simp: text_variant_def split: sum.splits)
    then show ?thesis
      by (simp add: j add_path_data_variant[OF assms(1)])
  qed
qed

lemma add_path_output_variants:
  assumes "variants w w'"
  shows "add_path_output w' st out = add_path_output w st out"
proof (cases out)
  case (JStr p)
  have a: "path_info_args [''nix'', ''path-info'', ''-r'', ''--json'', p]"
    and b: "path_info_args [''nix'', ''--experimental-features'', ''nix-command flakes'',
                             ''path-info'', ''-r'', ''--json'', p]"
    by (simp_all add: path_info_args_def)
  show ?thesis
    unfolding JStr add_path_output_def json.case call_nix_bind probe_variants[OF assms]
    by (intro bind_cong_right)
       (simp add: path_info_call[OF assms a] path_info_call[OF assms b])
qed (simp_all add: add_path_output_def probe_variants[OF assms])

lemma add_path_outputs_variants:
  "variants w w' \<Longrightarrow> add_path_outputs w' st outs = add_path_outputs w st outs"
  by (induction outs arbitrary: st) (simp_all add: add_path_output_variants)

lemma add_path_variants:
  assumes "variants w w'"
  shows "add_path w' st p = add_path w st p"
proof -
  have e: "path_exists w' = path_exists w" using assms by (simp add: variants_def)
  have c: "\<And>d. call w' [''nix-store'', ''-qR'', d] = call w [''nix-store'', ''-qR'', d]"
    using assms by (rule variants_call) (simp add: path_info_args_def)
  have o: "add_path_outputs w' = add_path_outputs w"
    by (intro ext) (rule add_path_outputs_variants[OF assms])
  have u: "update_each w' = update_each w"
    by (intro ext) (rule update_each_variants[OF assms])
  have v: "update w' = update w"
    by (intro ext) (rule update_variants[OF assms])
  show ?thesis
    unfolding add_path_def e c o u v find_outputs_variants[OF assms]
      find_deriver_variants[OF assms] ..
qed

lemma add_store_paths_variants:
  assumes "variants w w'"
  shows "add_store_paths w' st ps = add_store_paths w st ps"
proof (induction ps arbitrary: st)
  case Nil
  show ?case by simp
next
  case (Cons p ps)
  have a: "add_path w' = add_path w"
    by (intro ext) (rule add_path_variants[OF assms])
  show ?case unfolding add_store_paths.simps a Cons.IH ..
qed

lemma add_element_variants:
  assumes "variants w w'"
  shows "add_element w' st e = add_element w st e"
proof -
  have a: "add_store_paths w' = add_store_paths w"
    by (intro ext) (rule add_store_paths_variants[OF assms])
  show ?thesis unfolding add_element_def a ..
qed

lemma add_elements_dict_variants:
  assumes "variants w w'"
  shows "add_elements_dict w' st kvs ks = add_elements_dict w st kvs ks"
  by (induction ks arbitrary: st) (simp_all add: add_element_variants[OF assms])

lemma add_elements_list_variants:
  assumes "variants w w'"
  shows "add_elements_list w' st es = add_elements_list w st es"
  by (induction es arbitrary: st) (simp_all add: add_element_variants[OF assms])

lemma add_profile_lines_variants:
  assumes "variants w w'"
  shows "add_profile_lines w' st ls = add_profile_lines w st ls"
proof (induction ls arbitrary: st)
  case Nil
  show ?case by simp
next
  case (Cons l ls)
  have a: "add_path w' = add_path w"
    by (intro ext) (rule add_path_variants[OF assms])
  show ?case unfolding add_profile_lines.simps a Cons.IH ..
qed

lemma add_elements_dict_lookup:
  "set ks \<subseteq> fst ` set kvs \<Longrightarrow>
   add_elements_dict w st kvs ks = add_elements_list w st (map (\<lambda>k. the (map_of kvs k)) ks)"
proof (induction ks arbitrary: st)
  case Nil
  then show ?case by simp
next
  case (Cons k ks)
  from Cons.prems have "k \<in> fst ` set kvs" by simp
  then obtain v where v: "map_of kvs k = Some v"
    by (metis domD dom_map_of_conv_image_fst)
  have i: "py_index (JDict kvs) k = Inr v" by (simp add: py_index_def v)
  from Cons.prems have "set ks \<subseteq> fst ` set kvs" by simp
  then show ?case by (simp add: i v Cons.IH)
qed

lemma map_of_keys_values:
  "distinct (map fst kvs) \<Longrightarrow> map (\<lambda>k. the (map_of kvs k)) (map fst kvs) = map snd kvs"
  by (induction kvs) (auto simp: image_iff)

lemma add_elements_dict_list:
  "distinct (map fst kvs) \<Longrightarrow>
   add_elements_dict w st kvs (map fst kvs) = add_elements_list w st (map snd kvs)"
proof -
  assume d: "distinct (map fst kvs)"
  have s: "set (map fst kvs) \<subseteq> fst ` set kvs" by simp
  show ?thesis unfolding add_elements_dict_lookup[OF s] map_of_keys_values[OF d] ..
qed

lemma add_manifest_variants:
  "variants w w' \<Longrightarrow> add_manifest w' st a = add_manifest w st a"
proof -
  assume v: "variants w w'"
  have d: "add_elements_dict w' = add_elements_dict w"
    by (intro ext) (rule add_elements_dict_variants[OF v])
  have l: "add_elements_list w' = add_elements_list w"
    by (intro ext) (rule add_elements_list_variants[OF v])
  show ?thesis unfolding add_manifest_def d l ..
qed

lemma add_manifest_variant:
  assumes "variants w w'" and "manifest_variant a b"
  shows "add_manifest w' st b = add_manifest w st a"
proof -
  from assms(2) obtain kvs where a: "py_index a ''elements'' = Inr (JDict kvs)"
    and d: "distinct (map fst kvs)"
    and b: "py_index b ''elements'' = Inr (JList (map snd kvs))"
    by (auto simp: manifest_variant_def split: sum.splits json.splits)
  have "add_manifest w' st b = add_elements_list w' st (map snd kvs)"
    by (simp add: add_manifest_def b)
  also have "\<dots> = add_elements_list w st (map snd kvs)"
    by (rule add_elements_list_variants[OF assms(1)])
  also have "\<dots> = add_elements_dict w st kvs (map fst kvs)"
    by (rule add_elements_dict_list[OF d, symmetric])
  also have "\<dots> = add_manifest w st a"
    by (cases "add_elements_dict w st kvs (map fst kvs)") (simp_all add: add_manifest_def a)
  finally show ?thesis .
qed

lemma manifest_read:
  assumes "variants w w'"
  shows "bind (read_file w' f) (\<lambda>txt. bind (json_loads w' txt) (add_manifest w' st))
       = bind (read_file w f) (\<lambda>txt. bind (json_loads w txt) (add_manifest w st))"
proof -
  have j: "json_loads w' = json_loads w" using assms by (simp add: variants_def)
  have d: "add_manifest w' st = add_manifest w st"
    by (rule ext) (rule add_manifest_variants[OF assms])
  from assms have "read_file w' f = read_file w f
      \<or> text_variant w manifest_variant (read_file w f) (read_file w' f)"
    unfolding variants_def by blast
  then show ?thesis
  proof
    assume "read_file w' f = read_file w f"
    then show ?thesis by (simp add: j d)
  next
    assume "text_variant w manifest_variant (read_file w f) (read_file w' f)"
    then obtain t t' a b where "read_file w f = Inr t" "read_file w' f = Inr t'"
      "json_loads w t = Inr a" "json_loads w t' = Inr b" "manifest_variant a b"
      by (auto simp: text_variant_def split: sum.splits)
    then show ?thesis
      by (simp add: j add_manifest_variant[OF assms])
  qed
qed

lemma add_profile_variants:
  assumes "variants w w'"
  shows "add_profile w' st profile = add_profile w st profile"
proof -
  have e: "path_exists w' = path_exists w" using assms by (simp add: variants_def)
  have c: "call w' [''nix-env'', ''-q'', ''--out-path'', ''--profile'', profile]
         = call w [''nix-env'', ''-q'', ''--out-path'', ''--profile'', profile]"
    using assms by (rule variants_call) (simp add: path_info_args_def)
  have l: "add_profile_lines w' = add_profile_lines w"
    by (intro ext) (rule add_profile_lines_variants[OF assms])
  show ?thesis
    unfolding add_profile_def Let_def e c l manifest_read[OF assms] ..
qed

lemma add_gc_roots_variants:
  assumes "variants w w'"
  shows "add_gc_roots w' st = add_gc_roots w st"
proof -
  have c: "call w' [''nix-store'', ''--gc'', ''--print-live'']
         = call w [''nix-store'', ''--gc'', ''--print-live'']"
    using assms by (rule variants_call) (simp add: path_info_args_def)
  have u: "update_each w' = update_each w"
    by (intro ext) (rule update_each_variants[OF assms])
  show ?thesis unfolding add_gc_roots_def c u ..
qed

lemma variants_map_list: "variants map_world list_world"
  unfolding variants_def
proof (intro conjI allI)
  show "path_exists list_world = path_exists map_world" by (simp add: list_world_def)
  show "load list_world = load map_world" by (simp add: list_world_def)
  show "json_loads list_world = json_loads map_world" by (simp add: list_world_def)
next
  fix argv
  show "call list_world argv = call map_world argv
      \<or> (path_info_args argv
          \<and> text_variant map_world path_info_variant (call map_world argv) (call list_world argv))"
  proof (cases "argv = [''nix'', ''path-info'', ''-r'', ''--json'', ''/nix/store/abc-foo-1'']")
    case True
    then show ?thesis
      by (simp add: path_info_args_def text_variant_def path_info_variant_def same_records_def
          py_get_def map_world_def list_world_def)
  next
    case False
    then show ?thesis by (simp add: list_world_def)
  qed
next
  fix f
  show "read_file list_world f = read_file map_world f
      \<or> text_variant map_world manifest_variant (read_file map_world f) (read_file list_world f)"
  proof (cases "f = ''/profile/manifest.json''")
    case True
    then show ?thesis
      by (simp add: text_variant_def manifest_variant_def py_index_def map_world_def
          list_world_def)
  next
    case False
    then show ?thesis by (simp add: list_world_def)
  qed
qed

text \<open>
  Claim C6. When two worlds differ only in that one answers the recursive path-info query
  with a mapping, or holds a manifest whose elements are a mapping, where the other has
  the list-shaped variant of the same content, then \<^verbatim>\<open>add_path\<close>, \<^verbatim>\<open>add_profile\<close> and
  \<^verbatim>\<open>add_gc_roots\<close> end in the same way from every store: with the same error, or with
  the same store, hence the same set of derivations.
\<close>

theorem shape_variants_same_result:
  assumes "variants w w'"
  shows "add_path w' st path = add_path w st path
       \<and> add_profile w' st profile = add_profile w st profile
       \<and> add_gc_roots w' st = add_gc_roots w st"
  using add_path_variants[OF assms] add_profile_variants[OF assms] add_gc_roots_variants[OF assms]
  by blast

theorem shape_variants_same_result_witness:
  "variants map_world list_world
   \<and> (add_path list_world (Store True True) ''/nix/store/abc-foo-1''
        = add_path map_world (Store True True) ''/nix/store/abc-foo-1''
      \<and> add_profile list_world (Store True True) ''/profile''
        = add_profile map_world (Store True True) ''/profile''
      \<and> add_gc_roots list_world (Store True True) = add_gc_roots map_world (Store True True))
   \<and> add_path map_world (Store True True) ''/nix/store/abc-foo-1''
        = Inr ((Store True True)\<lparr>derivations := [deriv1], experimental_flag_needed := Some False\<rparr>)
   \<and> add_profile list_world (Store True True) ''/profile''
        = Inr ((Store True True)\<lparr>derivations := [deriv1], experimental_flag_needed := Some False\<rparr>)"
  using variants_map_list
    shape_variants_same_result[OF variants_map_list, of "Store True True"
      "''/nix/store/abc-foo-1''" "''/profile''"]
    closure_run profile_run
  by blast

end
